(* ===== verification/Prelude.thy ===== *)
theory Prelude
  imports Complex_Main
begin

text \<open>
  Shared vocabulary of the development. Time values of the game (results of
  \<open>Date.now()\<close>, deadlines, durations) are JavaScript numbers; they are modelled as
  exact rationals \<open>ms\<close>, since the timer factor \<open>(1000 - 500) / 9\<close> of
  \<open>round.tsx\<close> is not an integer. Array reads \<open>xs[i]\<close> that may be out of range are
  \<open>js_index\<close>, which returns \<open>None\<close> where JavaScript yields \<open>undefined\<close>;
  \<open>xs.slice(a, b)\<close> is \<open>js_slice\<close>. The collection \<open>round_defs\<close> gathers the
  definitions the round-engine proofs unfold.
\<close>

named_theorems round_defs "definitions of the round engine unfolded by its proofs"

type_synonym ms = rat

definition js_index :: "'a list \<Rightarrow> nat \<Rightarrow> 'a option" where
  "js_index xs i = (if i < length xs then Some (xs ! i) else None)"

definition js_slice :: "'a list \<Rightarrow> nat \<Rightarrow> nat \<Rightarrow> 'a list" where
  "js_slice xs a b = take (b - a) (drop a xs)"

lemma js_index_Some [simp]: "i < length xs \<Longrightarrow> js_index xs i = Some (xs ! i)"
  by (simp add: js_index_def)

lemma js_index_None [simp]: "length xs \<le> i \<Longrightarrow> js_index xs i = None"
  by (simp add: js_index_def)

lemma js_index_eq_Some_iff: "js_index xs i = Some x \<longleftrightarrow> i < length xs \<and> xs ! i = x"
  by (auto simp: js_index_def)

lemma js_slice_length [simp]: "length (js_slice xs a b) = min (b - a) (length xs - a)"
  by (simp add: js_slice_def)

lemma js_slice_nth [simp]: "i < length (js_slice xs a b) \<Longrightarrow> js_slice xs a b ! i = xs ! (a + i)"
proof -
  assume "i < length (js_slice xs a b)"
  then have "a \<le> length xs" and "i < b - a" by auto
  then show ?thesis by (simp add: js_slice_def)
qed

lemma js_slice_Cons: "a < b \<Longrightarrow> a < length xs \<Longrightarrow> js_slice xs a b = xs ! a # js_slice xs (Suc a) b"
proof -
  assume "a < b" and "a < length xs"
  then have "drop a xs = xs ! a # drop (Suc a) xs" and "b - a = Suc (b - Suc a)"
    by (simp_all add: Cons_nth_drop_Suc)
  then show ?thesis by (simp add: js_slice_def)
qed

text \<open>A computation that may raise stops at the first error, as a thrown exception does.\<close>

lemma sum_case_Inr_iff:
  "(case x of Inl e \<Rightarrow> Inl e | Inr a \<Rightarrow> f a) = Inr b \<longleftrightarrow> (\<exists>a. x = Inr a \<and> f a = Inr b)"
  by (cases x) auto

lemma sum_case_Inl_iff:
  "(case x of Inl e \<Rightarrow> Inl e | Inr a \<Rightarrow> f a) = Inl e' \<longleftrightarrow>
     x = Inl e' \<or> (\<exists>a. x = Inr a \<and> f a = Inl e')"
  by (cases x) auto

end
