(* ===== verification/Catalog.thy ===== *)
theory Catalog
  imports Prelude
begin

text \<open>
  The data the round engine is given: a stratagem (a name and a sequence of
  directional inputs; its icon is presentation only) and the game mode. Their
  declarations live in \<open>~/stratagems\<close> and \<open>~/types\<close>, which are not under
  \<open>src/\<close>; they are modelled from the spec (section 3). The mode's string value
  is what \<open>Menu\<close> and \<open>Round\<close> append to the high-score key.
\<close>

datatype direction = Up | Down | Left | Right

record stratagem =
  name :: string
  sequence :: "direction list"

datatype game_mode = Classic | Blind | Random

fun mode_string :: "game_mode \<Rightarrow> string" where
  "mode_string Classic = ''Classic''"
| "mode_string Blind = ''Blind''"
| "mode_string Random = ''Random''"

lemma mode_string_inj: "mode_string m = mode_string m' \<longleftrightarrow> m = m'"
  by (cases m; cases m') simp_all

end
