(* ===== verification/Timer_Policy.thy ===== *)
theory Timer_Policy
  imports Prelude
begin

text \<open>
  The timer policy of \<open>src/src/scenes/Game/round.tsx\<close>: the three module constants
  (lines 13--15), the extension earned by completing a stratagem and the clamp that
  keeps the deadline within one round length of the clock (lines 52--55), and the
  remaining time and danger flag derived at each render (lines 45--46).
  The extension is not clamped by \<open>timerIncrementMax\<close>: it stays below that
  maximum exactly for sequences of at most nine inputs.
\<close>

definition timerIncrementMax :: ms where
  "timerIncrementMax = 1000"

definition timerIncrementBase :: ms where
  "timerIncrementBase = 500"

definition timerIncrementFactor :: ms where
  "timerIncrementFactor = (timerIncrementMax - timerIncrementBase) / 9"

definition timer_extension :: "nat \<Rightarrow> ms" where
  "timer_extension len = timerIncrementBase + timerIncrementFactor * of_nat len"

text \<open>
  \<open>newEnd - Date.now() > roundLength\<close> reads the clock (\<open>t1\<close>), and the
  replacement \<open>Date.now() + roundLength\<close> reads it again (\<open>t2\<close>).
\<close>

definition clamped_end :: "ms \<Rightarrow> ms \<Rightarrow> ms \<Rightarrow> ms \<Rightarrow> ms" where
  "clamped_end roundLength t1 t2 newEnd =
     (if newEnd - t1 > roundLength then t2 + roundLength else newEnd)"

definition timer :: "ms \<Rightarrow> ms \<Rightarrow> ms" where
  "timer end_time now = end_time - now"

definition danger :: "ms \<Rightarrow> ms \<Rightarrow> bool" where
  "danger end_time now \<longleftrightarrow> timer end_time now < 2000"

lemmas timer_constants = timerIncrementMax_def timerIncrementBase_def timerIncrementFactor_def

lemma timer_extension_eq: "timer_extension len = 500 + 500 / 9 * of_nat len"
  by (simp add: timer_extension_def timer_constants)

lemma timer_extension_ge_base: "timerIncrementBase \<le> timer_extension len"
  by (simp add: timer_extension_def timer_constants)

lemma timer_extension_pos [simp]: "0 < timer_extension len"
  by (simp add: timer_extension_eq add_pos_nonneg)

lemma clamped_end_le: "t1 \<le> t2 \<Longrightarrow> clamped_end limit t1 t2 e \<le> t2 + limit"
  by (simp add: clamped_end_def)

lemma clamped_end_unclamped [simp]:
  "e - t1 \<le> limit \<Longrightarrow> clamped_end limit t1 t2 e = e"
  by (simp add: clamped_end_def)

lemma clamped_end_clamped [simp]:
  "limit < e - t1 \<Longrightarrow> clamped_end limit t1 t2 e = t2 + limit"
  by (simp add: clamped_end_def)

lemma clamped_end_le_self: "t2 \<le> t1 \<Longrightarrow> clamped_end limit t1 t2 e \<le> e"
  by (simp add: clamped_end_def)

lemma clamped_end_gt: "t < e \<Longrightarrow> t < t2 + limit \<Longrightarrow> t < clamped_end limit t1 t2 e"
  by (simp add: clamped_end_def)

subsection \<open>Properties of the timer policy\<close>

text \<open>C17: The extension is never clamped by \<open>timerIncrementMax\<close>: it stays within that
  maximum exactly for sequences of at most nine inputs, and exceeds it beyond.\<close>

theorem timer_extension_within_max_iff:
  "timer_extension len \<le> timerIncrementMax \<longleftrightarrow> len \<le> 9"
proof -
  have "timer_extension len \<le> timerIncrementMax \<longleftrightarrow> (500 / 9) * of_nat len \<le> (500 :: rat)"
    by (simp add: timer_extension_eq timerIncrementMax_def)
  also have "\<dots> \<longleftrightarrow> of_nat len \<le> (9 :: rat)" by (simp add: field_simps)
  also have "\<dots> \<longleftrightarrow> len \<le> 9"
    by (metis of_nat_le_iff of_nat_numeral)
  finally show ?thesis .
qed

text \<open>C18: A longer input sequence earns strictly more time.\<close>

theorem timer_extension_strict_mono:
  "len < len' \<Longrightarrow> timer_extension len < timer_extension len'"
  by (simp add: timer_extension_eq)

theorem timer_extension_strict_mono_witness:
  "(3::nat) < 5 \<and> timer_extension 3 < timer_extension 5 \<and> timer_extension 5 = 500 + 2500 / 9"
  using timer_extension_strict_mono [of 3 5] by (simp add: timer_extension_eq)

end
