(* ===== verification/Round.thy ===== *)
theory Round
  imports Catalog Timer_Policy
begin

text \<open>
  The round engine, \<open>Round\<close> in \<open>src/src/scenes/Game/round.tsx\<close>. Its props are the
  record \<open>round_props\<close>; its React state (\<open>now\<close>, \<open>end\<close>, \<open>sequenceIdx\<close>, lines
  40--42) and whether the ticking interval of lines 73--85 is alive are the record
  \<open>round_state\<close>. Three inputs drive it: a tick of the interval, the
  \<open>onSuccess\<close> and the \<open>onFailure\<close> callback of \<open>ArrowInput\<close>; the callbacks it
  calls on its parent are its outputs. Each clock read \<open>Date.now()\<close> of a handler is
  a parameter of the input, so that one handler may see the clock advance. Reading
  \<open>stratagems[sequenceIdx].sequence\<close> or \<open>.name\<close> out of range is a
  \<open>TypeError\<close>, the error branch of the model. \<open>round_reach\<close> is the set of
  states reachable from mounting the round while the clock never goes back; its
  invariant \<open>round_inv\<close> bounds the index and the deadline.
\<close>

record round_props =
  mode :: game_mode
  round_no :: nat
  roundLength :: ms
  score :: nat
  stratagems :: "stratagem list"

record round_state =
  now :: ms
  end_time :: ms
  sequenceIdx :: nat
  interval_on :: bool

datatype round_input = Tick ms | ArrowSuccess ms ms ms | ArrowFailure

datatype round_output = InputSuccess nat | InputFailure | RoundSuccess ms | RoundFailure

datatype round_error = StratagemUndefined nat

record round_view =
  icons :: "stratagem list"
  current :: stratagem
  is_danger :: bool
  time_left :: ms
  is_blind :: bool

definition init_round :: "round_props \<Rightarrow> ms \<Rightarrow> ms \<Rightarrow> round_state" where
  "init_round p t0 t1 =
     \<lparr>now = t0, end_time = t1 + roundLength p, sequenceIdx = 0, interval_on = True\<rparr>"

definition on_tick :: "round_state \<Rightarrow> ms \<Rightarrow> round_state \<times> round_output list" where
  "on_tick s t =
     (if \<not> interval_on s then (s, [])
      else if end_time s \<le> t then (s\<lparr>now := t, interval_on := False\<rparr>, [RoundFailure])
      else (s\<lparr>now := t\<rparr>, []))"

text \<open>The new deadline of lines 52--55, for the stratagem just completed.\<close>

definition new_end :: "round_props \<Rightarrow> round_state \<Rightarrow> stratagem \<Rightarrow> ms \<Rightarrow> ms \<Rightarrow> ms" where
  "new_end p s stratagem t1 t2 =
     clamped_end (roundLength p) t1 t2 (end_time s + timer_extension (length (sequence stratagem)))"

definition on_input_success ::
  "round_props \<Rightarrow> round_state \<Rightarrow> ms \<Rightarrow> ms \<Rightarrow> ms \<Rightarrow> round_error + round_state \<times> round_output list" where
  "on_input_success p s t1 t2 t3 =
     (case js_index (stratagems p) (sequenceIdx s) of
        None \<Rightarrow> Inl (StratagemUndefined (sequenceIdx s))
      | Some stratagem \<Rightarrow>
          (let newEnd = new_end p s stratagem t1 t2
           in if int (sequenceIdx s) = int (length (stratagems p)) - 1
              then Inr (s, [InputSuccess (sequenceIdx s), RoundSuccess (newEnd - t3)])
              else Inr (s\<lparr>sequenceIdx := Suc (sequenceIdx s), end_time := newEnd,
                          interval_on := (newEnd \<noteq> end_time s \<or> interval_on s)\<rparr>,
                        [InputSuccess (sequenceIdx s)])))"

fun round_step ::
  "round_props \<Rightarrow> round_state \<Rightarrow> round_input \<Rightarrow> round_error + round_state \<times> round_output list" where
  "round_step p s (Tick t) = Inr (on_tick s t)"
| "round_step p s (ArrowSuccess t1 t2 t3) = on_input_success p s t1 t2 t3"
| "round_step p s ArrowFailure = Inr (s, [InputFailure])"

fun round_run ::
  "round_props \<Rightarrow> round_state \<Rightarrow> round_input list \<Rightarrow> round_error + round_state \<times> round_output list" where
  "round_run p s [] = Inr (s, [])"
| "round_run p s (e # es) =
     (case round_step p s e of
        Inl err \<Rightarrow> Inl err
      | Inr (s', out) \<Rightarrow>
          (case round_run p s' es of
             Inl err \<Rightarrow> Inl err
           | Inr (s'', out') \<Rightarrow> Inr (s'', out @ out')))"

text \<open>The values the render of lines 87--131 shows: the strip of at most six icons
  from the current stratagem on (lines 87--99), the current stratagem whose name
  (line 117) and sequence (line 122) it reads, the danger colour, the time left given
  to the progress bar (line 130), and the \<open>blind\<close> prop of \<open>ArrowInput\<close> (line 121).\<close>

definition render_round :: "round_props \<Rightarrow> round_state \<Rightarrow> round_error + round_view" where
  "render_round p s =
     (case js_index (stratagems p) (sequenceIdx s) of
        None \<Rightarrow> Inl (StratagemUndefined (sequenceIdx s))
      | Some st \<Rightarrow>
          Inr \<lparr>icons = js_slice (stratagems p) (sequenceIdx s) (sequenceIdx s + 6),
               current = st,
               is_danger = danger (end_time s) (now s),
               time_left = timer (end_time s) (now s),
               is_blind = (mode p = Blind)\<rparr>)"

text \<open>Clock discipline: the timestamps an input reads are not before the clock \<open>c\<close>.\<close>

fun input_after :: "ms \<Rightarrow> round_input \<Rightarrow> bool" where
  "input_after c (Tick t) = (c \<le> t)"
| "input_after c (ArrowSuccess t1 t2 t3) = (c \<le> t1 \<and> t1 \<le> t2 \<and> t2 \<le> t3)"
| "input_after c ArrowFailure = True"

fun clock_after :: "ms \<Rightarrow> round_input \<Rightarrow> ms" where
  "clock_after c (Tick t) = t"
| "clock_after c (ArrowSuccess t1 t2 t3) = t3"
| "clock_after c ArrowFailure = c"

inductive round_reach :: "round_props \<Rightarrow> ms \<Rightarrow> round_state \<Rightarrow> bool" for p where
  mount: "stratagems p \<noteq> [] \<Longrightarrow> t0 \<le> t1 \<Longrightarrow> round_reach p t1 (init_round p t0 t1)"
| step: "round_reach p c s \<Longrightarrow> input_after c e \<Longrightarrow> round_step p s e = Inr (s', out) \<Longrightarrow>
    round_reach p (clock_after c e) s'"

definition round_inv :: "round_props \<Rightarrow> ms \<Rightarrow> round_state \<Rightarrow> bool" where
  "round_inv p c s \<longleftrightarrow>
     sequenceIdx s < length (stratagems p) \<and> now s \<le> c \<and> end_time s \<le> c + roundLength p"

text \<open>Concrete inputs for the witnesses: a stratagem with a given input sequence and
  the props of a round of the given length and list.\<close>

definition demo_stratagem :: "direction list \<Rightarrow> stratagem" where
  "demo_stratagem ds = \<lparr>name = ''Reinforce'', sequence = ds\<rparr>"

definition demo_props :: "ms \<Rightarrow> stratagem list \<Rightarrow> round_props" where
  "demo_props len xs = \<lparr>mode = Classic, round_no = 1, roundLength = len, score = 0, stratagems = xs\<rparr>"

declare init_round_def [round_defs] on_tick_def [round_defs]
  new_end_def [round_defs] on_input_success_def [round_defs] round_inv_def [round_defs]

subsection \<open>Shape of each handler\<close>

lemma on_input_success_None:
  "length (stratagems p) \<le> sequenceIdx s \<Longrightarrow>
   on_input_success p s t1 t2 t3 = Inl (StratagemUndefined (sequenceIdx s))"
  by (simp add: on_input_success_def)

text \<open>The two outcomes of a success on a stratagem that exists.\<close>

lemma on_input_success_last:
  assumes "Suc (sequenceIdx s) = length (stratagems p)"
  shows "on_input_success p s t1 t2 t3 =
           Inr (s, [InputSuccess (sequenceIdx s),
                    RoundSuccess (new_end p s (stratagems p ! sequenceIdx s) t1 t2 - t3)])"
  using assms by (simp add: on_input_success_def Let_def)

lemma on_input_success_next:
  assumes "Suc (sequenceIdx s) < length (stratagems p)"
  shows "on_input_success p s t1 t2 t3 =
           (let e = new_end p s (stratagems p ! sequenceIdx s) t1 t2
            in Inr (s\<lparr>sequenceIdx := Suc (sequenceIdx s), end_time := e,
                      interval_on := (e \<noteq> end_time s \<or> interval_on s)\<rparr>,
                    [InputSuccess (sequenceIdx s)]))"
proof -
  from assms have "int (sequenceIdx s) \<noteq> int (length (stratagems p)) - 1" by linarith
  with assms show ?thesis by (simp add: on_input_success_def Let_def)
qed

lemma on_input_success_cases:
  assumes "on_input_success p s t1 t2 t3 = Inr (s', out)"
  obtains (final) r where "Suc (sequenceIdx s) = length (stratagems p)" and "s' = s"
      and "out = [InputSuccess (sequenceIdx s), RoundSuccess r]"
      and "r = new_end p s (stratagems p ! sequenceIdx s) t1 t2 - t3"
    | (advance) "Suc (sequenceIdx s) < length (stratagems p)"
      and "sequenceIdx s' = Suc (sequenceIdx s)" and "now s' = now s"
      and "end_time s' = new_end p s (stratagems p ! sequenceIdx s) t1 t2"
      and "out = [InputSuccess (sequenceIdx s)]"
proof -
  have lt: "sequenceIdx s < length (stratagems p)"
  proof (rule ccontr)
    assume "\<not> ?thesis"
    with assms show False by (simp add: on_input_success_None)
  qed
  show ?thesis
  proof (cases "Suc (sequenceIdx s) = length (stratagems p)")
    case True
    with assms show ?thesis by (auto simp: on_input_success_last intro: final)
  next
    case False
    with lt have "Suc (sequenceIdx s) < length (stratagems p)" by simp
    with assms show ?thesis by (auto simp: on_input_success_next Let_def intro: advance)
  qed
qed

subsection \<open>The invariant\<close>

lemma round_inv_init: "stratagems p \<noteq> [] \<Longrightarrow> t0 \<le> t1 \<Longrightarrow> round_inv p t1 (init_round p t0 t1)"
  by (simp add: round_defs)

lemma round_inv_mono_clock: "round_inv p c s \<Longrightarrow> c \<le> c' \<Longrightarrow> round_inv p c' s"
  by (simp add: round_inv_def)

lemma on_tick_inv: "round_inv p c s \<Longrightarrow> c \<le> t \<Longrightarrow> on_tick s t = (s', out) \<Longrightarrow> round_inv p t s'"
  unfolding on_tick_def round_inv_def by (simp split: if_splits) (auto elim: order_trans)

lemma on_input_success_inv:
  assumes inv: "round_inv p c s" and clk: "c \<le> t1" "t1 \<le> t2" "t2 \<le> t3"
    and ok: "on_input_success p s t1 t2 t3 = Inr (s', out)"
  shows "round_inv p t3 s'"
  using ok
proof (cases rule: on_input_success_cases)
  case final
  with inv clk show ?thesis by (auto intro: round_inv_mono_clock)
next
  case advance
  have "end_time s' \<le> t2 + roundLength p"
    using advance(4) clk(2) by (simp add: new_end_def clamped_end_le)
  with advance inv clk show ?thesis by (simp add: round_inv_def)
qed

lemma round_step_inv:
  assumes "round_inv p c s" and "input_after c e" and "round_step p s e = Inr (s', out)"
  shows "round_inv p (clock_after c e) s'"
proof (cases e)
  case (Tick t)
  then show ?thesis using assms by (auto intro: on_tick_inv)
next
  case (ArrowSuccess t1 t2 t3)
  then show ?thesis using assms by (auto intro: on_input_success_inv)
next
  case ArrowFailure
  then show ?thesis using assms by simp
qed

lemma round_reach_inv: "round_reach p c s \<Longrightarrow> round_inv p c s"
proof (induction rule: round_reach.induct)
  case (mount t0 t1)
  then show ?case by (rule round_inv_init)
next
  case (step c s e s' out)
  then show ?case by (blast intro: round_step_inv)
qed

subsection \<open>Runs\<close>

lemma on_tick_frame [simp]:
  "sequenceIdx (fst (on_tick s t)) = sequenceIdx s"
  "end_time (fst (on_tick s t)) = end_time s"
  by (simp_all add: on_tick_def)

lemma round_run_step:
  "round_step p s e = Inr (s', out) \<Longrightarrow>
   round_run p s (e # es) = (case round_run p s' es of Inl err \<Rightarrow> Inl err | Inr (s'', out') \<Rightarrow> Inr (s'', out @ out'))"
  by simp

lemma round_run_Cons_Inr:
  assumes "round_run p s (e # es) = Inr (s'', out)"
  obtains s' out1 out2 where "round_step p s e = Inr (s', out1)"
    and "round_run p s' es = Inr (s'', out2)" and "out = out1 @ out2"
  using assms by (auto split: sum.splits prod.splits)

lemma round_step_index:
  assumes "round_step p s e = Inr (s', out)"
  shows "sequenceIdx s \<le> sequenceIdx s' \<and> sequenceIdx s' \<le> Suc (sequenceIdx s)"
proof (cases e)
  case (Tick t)
  with assms have "s' = fst (on_tick s t)" by simp
  then show ?thesis by simp
next
  case (ArrowSuccess t1 t2 t3)
  with assms have "on_input_success p s t1 t2 t3 = Inr (s', out)" by simp
  then show ?thesis by (cases rule: on_input_success_cases) simp_all
next
  case ArrowFailure
  with assms show ?thesis by simp
qed

lemma round_reach_step_Inr:
  "round_reach p c s \<Longrightarrow> \<exists>r. round_step p s e = Inr r"
proof -
  assume "round_reach p c s"
  then have "sequenceIdx s < length (stratagems p)"
    by (auto dest: round_reach_inv simp: round_inv_def)
  then show ?thesis
    by (cases e) (auto simp: on_input_success_def Let_def split: option.splits)
qed

text \<open>The outcome of any sequence of ticks: the frame is kept, the failure is
  reported once if some tick reaches the deadline of a live interval, and the interval
  survives exactly when no tick does.\<close>

lemma round_run_ticks:
  "\<exists>s'. round_run p s (map Tick ts) =
     Inr (s', if interval_on s \<and> list_ex (\<lambda>t. end_time s \<le> t) ts then [RoundFailure] else []) \<and>
     sequenceIdx s' = sequenceIdx s \<and> end_time s' = end_time s \<and>
     interval_on s' = (interval_on s \<and> list_all (\<lambda>t. t < end_time s) ts)"
proof (induction ts arbitrary: s)
  case (Cons t ts)
  show ?case
  proof (cases "interval_on s \<and> end_time s \<le> t")
    case True
    with Cons.IH [of "s\<lparr>now := t, interval_on := False\<rparr>"] show ?thesis
      by (auto simp: on_tick_def)
  next
    case False
    with Cons.IH [of "fst (on_tick s t)"] show ?thesis
      by (auto simp: on_tick_def not_le split: if_splits)
  qed
qed simp

lemma round_step_no_input_failure:
  assumes "round_step p s e = Inr (s', out)" and "e \<noteq> ArrowFailure"
  shows "InputFailure \<notin> set out"
proof (cases e)
  case (Tick t)
  with assms show ?thesis by (auto simp: on_tick_def split: if_splits)
next
  case (ArrowSuccess t1 t2 t3)
  with assms have "on_input_success p s t1 t2 t3 = Inr (s', out)" by simp
  then show ?thesis by (cases rule: on_input_success_cases) auto
next
  case ArrowFailure
  with assms show ?thesis by simp
qed

subsection \<open>Properties of the round engine\<close>

lemmas demo_simps = demo_props_def demo_stratagem_def init_round_def

lemma demo_reach:
  "round_reach (demo_props 10000 xs) 0 (init_round (demo_props 10000 xs) 0 0) \<longleftrightarrow> xs \<noteq> []"
proof
  assume "xs \<noteq> []"
  then show "round_reach (demo_props 10000 xs) 0 (init_round (demo_props 10000 xs) 0 0)"
    by (intro round_reach.mount) (simp_all add: demo_props_def)
next
  assume "round_reach (demo_props 10000 xs) 0 (init_round (demo_props 10000 xs) 0 0)"
  then show "xs \<noteq> []" by (auto dest: round_reach_inv simp: round_inv_def demo_props_def)
qed

text \<open>C1: In every state reachable from mounting a round, with the clock never going back, the deadline is at most one round length after the latest clock reading: the clamp of lines 53--55 keeps banked time bounded.\<close>

theorem deadline_within_round_length:
  "round_reach p c s \<Longrightarrow> end_time s - c \<le> roundLength p"
  by (auto dest: round_reach_inv simp: round_inv_def)

theorem deadline_within_round_length_witness:
  "round_reach (demo_props 10000 [demo_stratagem [Up, Down, Left]]) 0
     (init_round (demo_props 10000 [demo_stratagem [Up, Down, Left]]) 0 0) \<and>
   end_time (init_round (demo_props 10000 [demo_stratagem [Up, Down, Left]]) 0 0) - 0
     \<le> roundLength (demo_props 10000 [demo_stratagem [Up, Down, Left]])"
proof -
  have r: "round_reach (demo_props 10000 [demo_stratagem [Up, Down, Left]]) 0
     (init_round (demo_props 10000 [demo_stratagem [Up, Down, Left]]) 0 0)"
    by (simp add: demo_reach)
  show ?thesis using r deadline_within_round_length [OF r] by simp
qed

text \<open>C2: Completing a stratagem that is not the last advances the index by one, keeps the displayed time, re-arms the interval exactly when the deadline value changes, and sets the deadline to the old deadline plus the extension for that stratagem's sequence length, or to one round length after the second clock read when that would exceed the round length (spec scenario C).\<close>

theorem success_updates_deadline:
  assumes "Suc (sequenceIdx s) < length (stratagems p)"
  defines "ext \<equiv> timer_extension (length (sequence (stratagems p ! sequenceIdx s)))"
  shows "\<exists>s'. on_input_success p s t1 t2 t3 = Inr (s', [InputSuccess (sequenceIdx s)]) \<and>
           sequenceIdx s' = Suc (sequenceIdx s) \<and> now s' = now s \<and>
           interval_on s' = (end_time s' \<noteq> end_time s \<or> interval_on s) \<and>
           end_time s' = (if roundLength p < end_time s + ext - t1 then t2 + roundLength p
                          else end_time s + ext)"
  using assms by (auto simp: on_input_success_next Let_def new_end_def clamped_end_def)

theorem success_updates_deadline_witness:
  "Suc (sequenceIdx (init_round (demo_props 10000 [demo_stratagem [Up, Up, Down, Right, Left], demo_stratagem [Up]]) 0 0))
     < length (stratagems (demo_props 10000 [demo_stratagem [Up, Up, Down, Right, Left], demo_stratagem [Up]])) \<and>
   on_input_success (demo_props 10000 [demo_stratagem [Up, Up, Down, Right, Left], demo_stratagem [Up]])
     (init_round (demo_props 10000 [demo_stratagem [Up, Up, Down, Right, Left], demo_stratagem [Up]]) 0 0) 3000 3000 3000
   = Inr (\<lparr>now = 0, end_time = 10000 + (500 + 500 / 9 * 5), sequenceIdx = 1, interval_on = True\<rparr>, [InputSuccess 0])"
proof -
  let ?p = "demo_props 10000 [demo_stratagem [Up, Up, Down, Right, Left], demo_stratagem [Up]]"
  let ?s = "init_round ?p 0 0"
  have h: "Suc (sequenceIdx ?s) < length (stratagems ?p)" by (simp add: demo_simps)
  from success_updates_deadline [OF h, of 3000 3000 3000] obtain s' where
    eq: "on_input_success ?p ?s 3000 3000 3000 = Inr (s', [InputSuccess (sequenceIdx ?s)])"
    and f: "sequenceIdx s' = Suc (sequenceIdx ?s)" "now s' = now ?s"
      "interval_on s' = (end_time s' \<noteq> end_time ?s \<or> interval_on ?s)"
      "end_time s' = (if roundLength ?p < end_time ?s + timer_extension (length (sequence (stratagems ?p ! sequenceIdx ?s))) - 3000
                      then 3000 + roundLength ?p
                      else end_time ?s + timer_extension (length (sequence (stratagems ?p ! sequenceIdx ?s))))"
    by blast
  have "s' = \<lparr>now = 0, end_time = 10000 + (500 + 500 / 9 * 5), sequenceIdx = 1, interval_on = True\<rparr>"
    using f by (simp add: demo_simps timer_extension_eq)
  with h eq show ?thesis by (simp add: demo_simps)
qed

text \<open>C3: From any index within the list, completing the remaining stratagems one by one reports an input success for each index in order and then exactly one round success (spec scenario A), whatever the clock readings.\<close>

theorem completing_all_stratagems_succeeds:
  "sequenceIdx s < length (stratagems p) \<Longrightarrow> length ts = length (stratagems p) - sequenceIdx s \<Longrightarrow>
   \<exists>s' r. round_run p s (map (\<lambda>(t1, t2, t3). ArrowSuccess t1 t2 t3) ts) =
     Inr (s', map InputSuccess [sequenceIdx s..<length (stratagems p)] @ [RoundSuccess r])"
proof (induction ts arbitrary: s)
  case Nil
  then show ?case by simp
next
  case (Cons tt ts)
  obtain t1 t2 t3 where tt: "tt = (t1, t2, t3)" by (cases tt)
  show ?case
  proof (cases "Suc (sequenceIdx s) = length (stratagems p)")
    case True
    with Cons.prems have "ts = []" by (cases ts) auto
    moreover have "[sequenceIdx s..<length (stratagems p)] = [sequenceIdx s]"
      using True [symmetric] by simp
    ultimately show ?thesis using True tt by (simp add: on_input_success_last)
  next
    case False
    with Cons.prems have lt: "Suc (sequenceIdx s) < length (stratagems p)" by simp
    let ?s1 = "s\<lparr>sequenceIdx := Suc (sequenceIdx s),
                 end_time := new_end p s (stratagems p ! sequenceIdx s) t1 t2,
                 interval_on := (new_end p s (stratagems p ! sequenceIdx s) t1 t2 \<noteq> end_time s \<or> interval_on s)\<rparr>"
    have st: "round_step p s (ArrowSuccess t1 t2 t3) = Inr (?s1, [InputSuccess (sequenceIdx s)])"
      using lt by (simp add: on_input_success_next Let_def)
    from Cons.prems lt have "sequenceIdx ?s1 < length (stratagems p)"
      and "length ts = length (stratagems p) - sequenceIdx ?s1" by simp_all
    then obtain s' r where
      "round_run p ?s1 (map (\<lambda>(t1, t2, t3). ArrowSuccess t1 t2 t3) ts) =
         Inr (s', map InputSuccess [Suc (sequenceIdx s)..<length (stratagems p)] @ [RoundSuccess r])"
      using Cons.IH by fastforce
    moreover have "[sequenceIdx s..<length (stratagems p)] = sequenceIdx s # [Suc (sequenceIdx s)..<length (stratagems p)]"
      using lt by (simp add: upt_conv_Cons)
    ultimately show ?thesis using st tt by simp
  qed
qed

theorem completing_all_stratagems_succeeds_witness:
  "sequenceIdx (init_round (demo_props 10000 [demo_stratagem [Up, Down, Left]]) 0 0)
     < length (stratagems (demo_props 10000 [demo_stratagem [Up, Down, Left]])) \<and>
   length [(1000::ms, 1000::ms, 1000::ms)] = length (stratagems (demo_props 10000 [demo_stratagem [Up, Down, Left]]))
     - sequenceIdx (init_round (demo_props 10000 [demo_stratagem [Up, Down, Left]]) 0 0) \<and>
   (\<exists>s' r. round_run (demo_props 10000 [demo_stratagem [Up, Down, Left]])
       (init_round (demo_props 10000 [demo_stratagem [Up, Down, Left]]) 0 0)
       [ArrowSuccess 1000 1000 1000] = Inr (s', [InputSuccess 0, RoundSuccess r]))"
proof -
  let ?p = "demo_props 10000 [demo_stratagem [Up, Down, Left]]"
  let ?s = "init_round ?p 0 0"
  have h1: "sequenceIdx ?s < length (stratagems ?p)" by (simp add: demo_simps)
  have h2: "length [(1000::ms, 1000::ms, 1000::ms)] = length (stratagems ?p) - sequenceIdx ?s"
    by (simp add: demo_simps)
  show ?thesis using h1 h2 completing_all_stratagems_succeeds [OF h1 h2] by (simp add: demo_simps)
qed

text \<open>C4: No input raises in a reachable state: the read of the current stratagem is always in range.\<close>

theorem reachable_step_never_raises:
  "round_reach p c s \<Longrightarrow> \<exists>s' out. round_step p s e = Inr (s', out)"
  using round_reach_step_Inr by fastforce

theorem reachable_step_never_raises_witness:
  "round_reach (demo_props 10000 [demo_stratagem [Up], demo_stratagem [Down]]) 1
     \<lparr>now = 0, end_time = 10001, sequenceIdx = 1, interval_on = True\<rparr> \<and>
   (\<exists>s' out. round_step (demo_props 10000 [demo_stratagem [Up], demo_stratagem [Down]])
      \<lparr>now = 0, end_time = 10001, sequenceIdx = 1, interval_on = True\<rparr> (ArrowSuccess 2 2 2) = Inr (s', out))"
proof -
  let ?p = "demo_props 10000 [demo_stratagem [Up], demo_stratagem [Down]]"
  have r0: "round_reach ?p 0 (init_round ?p 0 0)" by (simp add: demo_reach)
  have "round_step ?p (init_round ?p 0 0) (ArrowSuccess 1 1 1) =
          Inr (\<lparr>now = 0, end_time = 10001, sequenceIdx = 1, interval_on = True\<rparr>, [InputSuccess 0])"
    by (simp add: demo_simps on_input_success_def new_end_def clamped_end_def timer_extension_eq)
  then have r: "round_reach ?p 1 \<lparr>now = 0, end_time = 10001, sequenceIdx = 1, interval_on = True\<rparr>"
    using round_reach.step [OF r0, of "ArrowSuccess 1 1 1"] by simp
  show ?thesis using r reachable_step_never_raises [OF r, of "ArrowSuccess 2 2 2"] by blast
qed

text \<open>C5: Every reachable state renders: the index is in range, the highlighted icon is the current stratagem and at most six icons are shown.\<close>

theorem reachable_round_renders:
  assumes "round_reach p c s"
  shows "sequenceIdx s < length (stratagems p) \<and>
         (\<exists>v. render_round p s = Inr v \<and> current v = stratagems p ! sequenceIdx s \<and>
              hd (icons v) = current v \<and> length (icons v) \<le> 6)"
proof -
  from assms have lt: "sequenceIdx s < length (stratagems p)"
    by (auto dest: round_reach_inv simp: round_inv_def)
  then have "icons_ne": "js_slice (stratagems p) (sequenceIdx s) (sequenceIdx s + 6) \<noteq> []"
    by (simp add: js_slice_Cons)
  with lt show ?thesis
    by (auto simp: render_round_def js_slice_Cons)
qed

theorem reachable_round_renders_witness:
  "round_reach (demo_props 10000 [demo_stratagem [Left, Right]]) 0
     (init_round (demo_props 10000 [demo_stratagem [Left, Right]]) 0 0) \<and>
   render_round (demo_props 10000 [demo_stratagem [Left, Right]])
     (init_round (demo_props 10000 [demo_stratagem [Left, Right]]) 0 0) =
   Inr \<lparr>icons = [demo_stratagem [Left, Right]], current = demo_stratagem [Left, Right],
        is_danger = False, time_left = 10000, is_blind = False\<rparr>"
proof -
  let ?p = "demo_props 10000 [demo_stratagem [Left, Right]]"
  have r: "round_reach ?p 0 (init_round ?p 0 0)" by (simp add: demo_reach)
  from reachable_round_renders [OF r] have "\<exists>v. render_round ?p (init_round ?p 0 0) = Inr v" by blast
  moreover have "render_round ?p (init_round ?p 0 0) =
     Inr \<lparr>icons = [demo_stratagem [Left, Right]], current = demo_stratagem [Left, Right],
          is_danger = False, time_left = 10000, is_blind = False\<rparr>"
    by (simp add: render_round_def demo_simps js_slice_def danger_def timer_def)
  ultimately show ?thesis using r by simp
qed

text \<open>C6: The remaining time reported with a round success is at most one round length, and it is positive when the handler ran before the old deadline.\<close>

theorem round_success_time_left:
  assumes reach: "round_reach p c s" and clk: "c \<le> t1" "t1 \<le> t2" "t2 \<le> t3"
    and ok: "on_input_success p s t1 t2 t3 = Inr (s', out)" and rs: "RoundSuccess r \<in> set out"
  shows "r \<le> roundLength p \<and> (t3 < end_time s \<longrightarrow> 0 < r)"
  using ok
proof (cases rule: on_input_success_cases)
  case (final r')
  with rs have r: "r = new_end p s (stratagems p ! sequenceIdx s) t1 t2 - t3" by simp
  from reach have inv: "end_time s \<le> c + roundLength p"
    by (auto dest: round_reach_inv simp: round_inv_def)
  have "new_end p s (stratagems p ! sequenceIdx s) t1 t2 \<le> t2 + roundLength p"
    using clk by (simp add: new_end_def clamped_end_le)
  with r clk have le: "r \<le> roundLength p" by linarith
  have "t3 < end_time s \<Longrightarrow> 0 < r"
  proof -
    assume lt: "t3 < end_time s"
    have "t3 < end_time s + timer_extension (length (sequence (stratagems p ! sequenceIdx s)))"
      using lt timer_extension_pos [of "length (sequence (stratagems p ! sequenceIdx s))"] by linarith
    moreover have "t3 < t2 + roundLength p" using lt inv clk by linarith
    ultimately show "0 < r" using r by (simp add: new_end_def clamped_end_gt)
  qed
  with le show ?thesis by blast
next
  case advance
  with rs show ?thesis by simp
qed

theorem round_success_time_left_witness:
  "round_reach (demo_props 10000 [demo_stratagem [Up, Down, Left]]) 0
     (init_round (demo_props 10000 [demo_stratagem [Up, Down, Left]]) 0 0) \<and>
   on_input_success (demo_props 10000 [demo_stratagem [Up, Down, Left]])
     (init_round (demo_props 10000 [demo_stratagem [Up, Down, Left]]) 0 0) 1000 1000 1000 =
     Inr (init_round (demo_props 10000 [demo_stratagem [Up, Down, Left]]) 0 0, [InputSuccess 0, RoundSuccess (29000 / 3)]) \<and>
   29000 / 3 \<le> roundLength (demo_props 10000 [demo_stratagem [Up, Down, Left]]) \<and> (0::ms) < 29000 / 3"
proof -
  let ?p = "demo_props 10000 [demo_stratagem [Up, Down, Left]]"
  let ?s = "init_round ?p 0 0"
  have r: "round_reach ?p 0 ?s" by (simp add: demo_reach)
  have ok: "on_input_success ?p ?s 1000 1000 1000 = Inr (?s, [InputSuccess 0, RoundSuccess (29000 / 3)])"
    by (simp add: demo_simps on_input_success_def new_end_def clamped_end_def timer_extension_eq)
  have "29000 / 3 \<le> roundLength ?p \<and> (1000 < end_time ?s \<longrightarrow> 0 < (29000 / 3 :: ms))"
    by (rule round_success_time_left [OF r _ _ _ ok]) simp_all
  with r ok show ?thesis by (simp add: demo_simps)
qed

text \<open>C7: Wrong inputs cost nothing (the forgiveness policy of spec 4.1, scenario D):
  a run behaves exactly as the run with its wrong inputs removed, the same error or
  the same final state, with the same outputs once the reported input failures are
  dropped.\<close>

theorem failures_keep_state:
  "round_run p s (filter (\<lambda>e. e \<noteq> ArrowFailure) es) =
   map_sum id (\<lambda>(s', out). (s', filter (\<lambda>x. x \<noteq> InputFailure) out)) (round_run p s es)"
proof (induction es arbitrary: s)
  case (Cons e es)
  show ?case
  proof (cases "e = ArrowFailure")
    case True
    show ?thesis using Cons.IH [of s] True by (cases "round_run p s es") auto
  next
    case False
    show ?thesis
    proof (cases "round_step p s e")
      case (Inl err)
      with False show ?thesis by simp
    next
      case (Inr r)
      obtain s1 out1 where r: "r = (s1, out1)" by (cases r)
      from Inr r False have "InputFailure \<notin> set out1"
        by (intro round_step_no_input_failure [of p s e s1]) simp_all
      then have "filter (\<lambda>x. x \<noteq> InputFailure) out1 = out1"
        by (auto simp: filter_id_conv)
      with Inr r False Cons.IH [of s1] show ?thesis by (cases "round_run p s1 es") auto
    qed
  qed
qed simp

text \<open>C8: Along any run the stratagem index never decreases and grows by at most one per input.\<close>

theorem run_index_bounds:
  "round_run p s es = Inr (s', out) \<Longrightarrow>
   sequenceIdx s \<le> sequenceIdx s' \<and> sequenceIdx s' \<le> sequenceIdx s + length es"
proof (induction es arbitrary: s out)
  case Nil
  then show ?case by simp
next
  case (Cons e es)
  obtain s1 out1 out2 where st: "round_step p s e = Inr (s1, out1)"
    and rn: "round_run p s1 es = Inr (s', out2)" and "out = out1 @ out2"
    using Cons.prems by (rule round_run_Cons_Inr)
  from rn have "sequenceIdx s1 \<le> sequenceIdx s' \<and> sequenceIdx s' \<le> sequenceIdx s1 + length es"
    by (rule Cons.IH)
  with round_step_index [OF st] show ?case by simp
qed

theorem run_index_bounds_witness:
  "round_run (demo_props 10000 [demo_stratagem [Up], demo_stratagem [Down]])
     (init_round (demo_props 10000 [demo_stratagem [Up], demo_stratagem [Down]]) 0 0)
     [ArrowSuccess 1 1 1, ArrowFailure] =
     Inr (\<lparr>now = 0, end_time = 10001, sequenceIdx = 1, interval_on = True\<rparr>, [InputSuccess 0, InputFailure]) \<and>
   sequenceIdx (init_round (demo_props 10000 [demo_stratagem [Up], demo_stratagem [Down]]) 0 0) \<le> 1 \<and>
   (1::nat) \<le> sequenceIdx (init_round (demo_props 10000 [demo_stratagem [Up], demo_stratagem [Down]]) 0 0)
     + length [ArrowSuccess 1 1 1, ArrowFailure]"
proof -
  have r: "round_run (demo_props 10000 [demo_stratagem [Up], demo_stratagem [Down]])
     (init_round (demo_props 10000 [demo_stratagem [Up], demo_stratagem [Down]]) 0 0)
     [ArrowSuccess 1 1 1, ArrowFailure] =
     Inr (\<lparr>now = 0, end_time = 10001, sequenceIdx = 1, interval_on = True\<rparr>, [InputSuccess 0, InputFailure])"
    by (simp add: demo_simps on_input_success_def new_end_def clamped_end_def timer_extension_eq)
  show ?thesis using r run_index_bounds [OF r] by simp
qed

text \<open>C9: Any sequence of ticks keeps the index and the deadline; it reports the round failure, once, exactly when the interval was live and some tick reached the deadline, and it leaves the interval live exactly when none did (spec scenario B and the tick rule of spec 8).\<close>

theorem tick_outcome:
  "\<exists>s'. round_run p s (map Tick ts) =
     Inr (s', if interval_on s \<and> list_ex (\<lambda>t. end_time s \<le> t) ts then [RoundFailure] else []) \<and>
     sequenceIdx s' = sequenceIdx s \<and> end_time s' = end_time s \<and>
     interval_on s' = (interval_on s \<and> list_all (\<lambda>t. t < end_time s) ts)"
  by (rule round_run_ticks)

text \<open>C10: After the round success is reported the round keeps its interval: a tick at or after the deadline, before the parent unmounts the round, still reports a round failure.\<close>

theorem tick_after_round_success_fails:
  assumes "Suc (sequenceIdx s) = length (stratagems p)" and "interval_on s" and "end_time s \<le> t"
  shows "\<exists>r. round_run p s [ArrowSuccess t1 t2 t3, Tick t] =
     Inr (s\<lparr>now := t, interval_on := False\<rparr>, [InputSuccess (sequenceIdx s), RoundSuccess r, RoundFailure])"
  using assms by (simp add: on_input_success_last on_tick_def)

theorem tick_after_round_success_fails_witness:
  "Suc (sequenceIdx (init_round (demo_props 10000 [demo_stratagem [Up]]) 0 0))
     = length (stratagems (demo_props 10000 [demo_stratagem [Up]])) \<and>
   interval_on (init_round (demo_props 10000 [demo_stratagem [Up]]) 0 0) \<and>
   end_time (init_round (demo_props 10000 [demo_stratagem [Up]]) 0 0) \<le> 10500 \<and>
   (\<exists>r. round_run (demo_props 10000 [demo_stratagem [Up]]) (init_round (demo_props 10000 [demo_stratagem [Up]]) 0 0)
      [ArrowSuccess 10400 10400 10400, Tick 10500] =
      Inr ((init_round (demo_props 10000 [demo_stratagem [Up]]) 0 0)\<lparr>now := 10500, interval_on := False\<rparr>,
           [InputSuccess 0, RoundSuccess r, RoundFailure]))"
proof -
  let ?p = "demo_props 10000 [demo_stratagem [Up]]"
  let ?s = "init_round ?p 0 0"
  have h: "Suc (sequenceIdx ?s) = length (stratagems ?p)" "interval_on ?s" "end_time ?s \<le> 10500"
    by (simp_all add: demo_simps)
  have "sequenceIdx ?s = 0" by (simp add: init_round_def)
  with h tick_after_round_success_fails [OF h, of 10400 10400 10400] show ?thesis by simp
qed


text \<open>C23: The interval cleared by the failure tick is re-armed by a later success: since \<open>ArrowInput\<close> stays mounted, a round that has reported its failure still accepts a completed stratagem, advances, extends its deadline and ticks again.\<close>

theorem round_resumes_after_failure:
  assumes "interval_on s" and "end_time s \<le> t" and "Suc (sequenceIdx s) < length (stratagems p)"
    and "end_time s + timer_extension (length (sequence (stratagems p ! sequenceIdx s))) - t1 \<le> roundLength p"
  shows "\<exists>s'. round_run p s [Tick t, ArrowSuccess t1 t2 t3] =
           Inr (s', [RoundFailure, InputSuccess (sequenceIdx s)]) \<and>
         interval_on s' \<and> sequenceIdx s' = Suc (sequenceIdx s) \<and>
         end_time s' = end_time s + timer_extension (length (sequence (stratagems p ! sequenceIdx s)))"
proof -
  let ?e = "end_time s + timer_extension (length (sequence (stratagems p ! sequenceIdx s)))"
  have "?e \<noteq> end_time s"
    using timer_extension_pos [of "length (sequence (stratagems p ! sequenceIdx s))"] by linarith
  then show ?thesis using assms
    by (simp add: on_tick_def on_input_success_next Let_def new_end_def)
qed

theorem round_resumes_after_failure_witness:
  "interval_on (init_round (demo_props 10000 [demo_stratagem [Up], demo_stratagem [Down]]) 0 0) \<and>
   end_time (init_round (demo_props 10000 [demo_stratagem [Up], demo_stratagem [Down]]) 0 0) \<le> 10000 \<and>
   Suc (sequenceIdx (init_round (demo_props 10000 [demo_stratagem [Up], demo_stratagem [Down]]) 0 0))
     < length (stratagems (demo_props 10000 [demo_stratagem [Up], demo_stratagem [Down]])) \<and>
   (\<exists>s'. round_run (demo_props 10000 [demo_stratagem [Up], demo_stratagem [Down]])
      (init_round (demo_props 10000 [demo_stratagem [Up], demo_stratagem [Down]]) 0 0)
      [Tick 10000, ArrowSuccess 10100 10100 10100] = Inr (s', [RoundFailure, InputSuccess 0]) \<and> interval_on s')"
proof -
  let ?p = "demo_props 10000 [demo_stratagem [Up], demo_stratagem [Down]]"
  let ?s = "init_round ?p 0 0"
  have h: "interval_on ?s" "end_time ?s \<le> 10000" "Suc (sequenceIdx ?s) < length (stratagems ?p)"
    "end_time ?s + timer_extension (length (sequence (stratagems ?p ! sequenceIdx ?s))) - 10100 \<le> roundLength ?p"
    by (simp_all add: demo_simps timer_extension_eq)
  have "sequenceIdx ?s = 0" by (simp add: init_round_def)
  with h round_resumes_after_failure [OF h, of 10100 10100] show ?thesis by auto
qed

end
