(* ===== verification/High_Score.thy ===== *)
theory High_Score
  imports Round
begin

text \<open>
  High-score persistence and the game-over screen. Local storage, as read and written
  through \<open>useLocalStorage\<close>, is a map from keys to stored numbers; a hook reads
  its initial value where the key is absent (\<open>read_store\<close>). \<open>GameOver\<close>
  (\<open>src/app/scenes/Game/game-over.tsx\<close>) reads and writes the single key
  \<open>ssgHighScoreV1\<close>, chooses its message from the final score, and its effect
  stores the score when it beats the stored one. \<open>Menu\<close>
  (\<open>src/src/scenes/Menu/index.tsx\<close>) labels each mode with the high score under
  \<open>highScoreKey-mode\<close>, the key \<open>Round\<close> also displays (\<open>round.tsx\<close> line 43);
  \<open>highScoreKey\<close> itself lives in \<open>~/consts\<close>, outside \<open>src/\<close>, so it is a
  parameter \<open>k\<close> here and every result holds for all its values.
\<close>

type_synonym local_storage = "string \<Rightarrow> int option"

definition read_store :: "local_storage \<Rightarrow> string \<Rightarrow> int \<Rightarrow> int" where
  "read_store st key initial = (case st key of None \<Rightarrow> initial | Some v \<Rightarrow> v)"

definition game_over_key :: string where
  "game_over_key = ''ssgHighScoreV1''"

definition game_over_message :: "int \<Rightarrow> string" where
  "game_over_message sc =
     (if sc < 1000 then ''Disappointing Service''
      else if sc < 1500 then ''Underwhelming Performance''
      else if sc < 2000 then ''Honorable Duty''
      else ''Outstanding Patriotism'')"

definition game_over_effect :: "local_storage \<Rightarrow> int \<Rightarrow> local_storage" where
  "game_over_effect st sc =
     (let highScore = read_store st game_over_key 0
      in if sc > highScore then st(game_over_key \<mapsto> sc) else st)"

record game_over_view =
  final_score :: int
  shown_high_score :: int
  message :: string

definition render_game_over :: "local_storage \<Rightarrow> int \<Rightarrow> game_over_view" where
  "render_game_over st sc =
     \<lparr>final_score = sc, shown_high_score = read_store st game_over_key 0,
      message = game_over_message sc\<rparr>"

definition high_score_key :: "string \<Rightarrow> game_mode \<Rightarrow> string" where
  "high_score_key k m = k @ ''-'' @ mode_string m"

definition menu_options :: "game_mode list" where
  "menu_options = [Classic, Blind, Random]"

definition mode_label :: "local_storage \<Rightarrow> string \<Rightarrow> game_mode \<Rightarrow> string \<times> int" where
  "mode_label st k m = (mode_string m, read_store st (high_score_key k m) 0)"

definition round_high_score :: "local_storage \<Rightarrow> string \<Rightarrow> round_props \<Rightarrow> int" where
  "round_high_score st k p = read_store st (high_score_key k (mode p)) 0"

text \<open>Scores of successive games, each ending on the game-over screen.\<close>

definition game_over_all :: "local_storage \<Rightarrow> int list \<Rightarrow> local_storage" where
  "game_over_all st scs = fold (\<lambda>sc st. game_over_effect st sc) scs st"

text \<open>Mounting \<open>GameOver\<close> (lines 11--54): the first render reads the store; the
  effect of lines 23--27 runs after it. When the effect changed the stored high
  score, the hook re-renders the screen and, its dependency \<open>highScore\<close> having
  changed, the effect runs once more. The result is the final store and the
  rendered frames in order.\<close>

definition game_over_mount :: "local_storage \<Rightarrow> int \<Rightarrow> local_storage \<times> game_over_view list" where
  "game_over_mount st sc =
     (let st1 = game_over_effect st sc
      in if read_store st1 game_over_key 0 = read_store st game_over_key 0
         then (st1, [render_game_over st sc])
         else (game_over_effect st1 sc, [render_game_over st sc, render_game_over st1 sc]))"

subsection \<open>Lemmas\<close>

lemma read_store_upd [simp]:
  "read_store (st(key \<mapsto> v)) key' d = (if key' = key then v else read_store st key' d)"
  by (simp add: read_store_def)

lemma game_over_effect_cases:
  "game_over_effect st sc =
     (if read_store st game_over_key 0 < sc then st(game_over_key \<mapsto> sc) else st)"
  by (simp add: game_over_effect_def)

lemma high_score_key_ne_game_over_key: "high_score_key k m \<noteq> game_over_key"
proof
  assume "high_score_key k m = game_over_key"
  then have "last (high_score_key k m) = last game_over_key" by simp
  then show False by (cases m) (simp_all add: high_score_key_def game_over_key_def)
qed

lemma game_over_effect_other [simp]:
  "key \<noteq> game_over_key \<Longrightarrow> game_over_effect st sc key = st key"
  by (simp add: game_over_effect_cases)

lemma game_over_effect_effect:
  "game_over_effect (game_over_effect st a) b = game_over_effect st (max a b)"
  by (auto simp: game_over_effect_cases max_def)

lemma game_over_all_Cons [simp]:
  "game_over_all st (sc # scs) = game_over_all (game_over_effect st sc) scs"
  by (simp add: game_over_all_def)

subsection \<open>Properties of the high-score store\<close>

text \<open>C11: After the game-over effect the stored high score is the larger of the previous high score (0 when absent) and the final score.\<close>

theorem game_over_stores_max:
  "read_store (game_over_effect st sc) game_over_key 0 = max (read_store st game_over_key 0) sc"
  by (simp add: game_over_effect_cases)

text \<open>C12: The game-over effect writes storage exactly when the final score strictly beats the stored high score, and running it again after its own re-render changes nothing.\<close>

theorem game_over_writes_once:
  "(game_over_effect st sc \<noteq> st \<longleftrightarrow> read_store st game_over_key 0 < sc) \<and>
   game_over_effect (game_over_effect st sc) sc = game_over_effect st sc"
proof -
  have "st(game_over_key \<mapsto> sc) \<noteq> st" if "read_store st game_over_key 0 < sc"
  proof
    assume "st(game_over_key \<mapsto> sc) = st"
    then have "st game_over_key = Some sc" by (metis fun_upd_same)
    with that show False by (simp add: read_store_def)
  qed
  then show ?thesis by (auto simp: game_over_effect_cases)
qed

text \<open>C13: The game-over screen never changes the per-mode high scores that the menu labels and the round display, for every value of highScoreKey: it writes only the key ssgHighScoreV1.\<close>

theorem game_over_keeps_mode_scores:
  "mode_label (game_over_all st scs) k m = mode_label st k m \<and>
   round_high_score (game_over_all st scs) k p = round_high_score st k p"
proof -
  have "\<And>key. key \<noteq> game_over_key \<Longrightarrow> game_over_all st scs key = st key"
    by (induction scs arbitrary: st) (simp_all add: game_over_all_def)
  then have "\<And>m. read_store (game_over_all st scs) (high_score_key k m) 0 = read_store st (high_score_key k m) 0"
    by (simp add: read_store_def high_score_key_ne_game_over_key)
  then show ?thesis by (simp add: mode_label_def round_high_score_def)
qed

text \<open>C14: The game-over message partitions the scores into the four bands below 1000, [1000,1500), [1500,2000) and from 2000 on.\<close>

theorem game_over_message_bands:
  "(game_over_message sc = ''Disappointing Service'' \<longleftrightarrow> sc < 1000) \<and>
   (game_over_message sc = ''Underwhelming Performance'' \<longleftrightarrow> 1000 \<le> sc \<and> sc < 1500) \<and>
   (game_over_message sc = ''Honorable Duty'' \<longleftrightarrow> 1500 \<le> sc \<and> sc < 2000) \<and>
   (game_over_message sc = ''Outstanding Patriotism'' \<longleftrightarrow> 2000 \<le> sc)"
  by (simp add: game_over_message_def)

text \<open>C28: Equivalence: a sequence of games leaves the store exactly as one game-over
  with the best of their final scores would.\<close>

theorem game_over_all_eq_max:
  "scs \<noteq> [] \<Longrightarrow> game_over_all st scs = game_over_effect st (Max (set scs))"
proof (induction scs arbitrary: st rule: list_nonempty_induct)
  case (single sc)
  then show ?case by (simp add: game_over_all_def)
next
  case (cons sc scs)
  then show ?case by (simp add: game_over_effect_effect)
qed

theorem game_over_all_eq_max_witness:
  "[300, 1200, 800] \<noteq> ([] :: int list) \<and>
   game_over_all Map.empty [300, 1200, 800] = game_over_effect Map.empty 1200"
  using game_over_all_eq_max [of "[300, 1200, 800]" Map.empty] by simp

text \<open>C29: Mounting the game-over screen shows the previous high score in its first
  frame; when the final score beats it, a second frame shows the final score, and
  the effect's second run leaves the store as its first run left it.\<close>

theorem game_over_frames:
  "map shown_high_score (snd (game_over_mount st sc)) =
     (if read_store st game_over_key 0 < sc then [read_store st game_over_key 0, sc]
      else [read_store st game_over_key 0]) \<and>
   fst (game_over_mount st sc) = game_over_effect st sc"
  by (auto simp: game_over_mount_def game_over_effect_cases render_game_over_def Let_def)

end
