(* ===== verification/App.thy ===== *)
theory App
  imports High_Score
begin

text \<open>
  The application shell, \<open>src/src/App.tsx\<close>: one boolean state \<open>playing\<close>;
  the \<open>Menu\<close> is mounted while it is false and the \<open>Game\<close> while it is true.
  The menu's \<open>onSelect\<close> (\<open>src/src/scenes/Menu/index.tsx\<close>, lines 31--38)
  plays the game-start sound and calls \<open>onStart(mode)\<close>; the App's
  \<open>onStart\<close> ignores its argument and sets \<open>playing\<close>. The game's
  \<open>onReset\<close> clears it. An event comes from a mounted component only, so an event
  of the unmounted screen changes nothing.
\<close>

datatype screen = MenuScreen | GameScreen

record app_state =
  playing :: bool

datatype app_event = MenuStart game_mode | GameReset

datatype sound_cue = GameStartCue

definition app_init :: app_state where
  "app_init = \<lparr>playing = False\<rparr>"

definition app_screen :: "app_state \<Rightarrow> screen" where
  "app_screen s = (if playing s then GameScreen else MenuScreen)"

definition menu_on_select :: "game_mode \<Rightarrow> sound_cue list \<times> game_mode" where
  "menu_on_select m = ([GameStartCue], m)"

definition app_on_start :: "app_state \<Rightarrow> game_mode \<Rightarrow> app_state" where
  "app_on_start s m = s\<lparr>playing := True\<rparr>"

fun app_step :: "app_state \<Rightarrow> app_event \<Rightarrow> app_state" where
  "app_step s (MenuStart m) =
     (if app_screen s = MenuScreen then app_on_start s (snd (menu_on_select m)) else s)"
| "app_step s GameReset = (if app_screen s = GameScreen then s\<lparr>playing := False\<rparr> else s)"

definition app_run :: "app_state \<Rightarrow> app_event list \<Rightarrow> app_state" where
  "app_run s es = fold (\<lambda>e s. app_step s e) es s"

subsection \<open>Properties of the shell\<close>

text \<open>C15: The mode chosen in the menu never reaches the game: after a start, the
  application's state, and so everything it renders and passes on, is the same
  whichever mode was selected.\<close>

theorem app_start_ignores_mode:
  "app_run s (MenuStart m # es) = app_run s (MenuStart m' # es)"
  by (simp add: app_run_def app_on_start_def)

text \<open>C16: From the menu, starting a game shows the game screen, and resetting it
  returns to exactly the state before the start.\<close>

theorem app_menu_game_roundtrip:
  "\<not> playing s \<Longrightarrow>
   app_screen (app_step s (MenuStart m)) = GameScreen \<and>
   app_step (app_step s (MenuStart m)) GameReset = s"
  by (simp add: app_screen_def app_on_start_def menu_on_select_def)

theorem app_menu_game_roundtrip_witness:
  "\<not> playing app_init \<and>
   app_screen (app_step app_init (MenuStart Blind)) = GameScreen \<and>
   app_step (app_step app_init (MenuStart Blind)) GameReset = app_init"
proof -
  have h: "\<not> playing app_init" by (simp add: app_init_def)
  show ?thesis using h app_menu_game_roundtrip [OF h, of Blind] by blast
qed

end
