(* ===== verification/Menu.thy ===== *)
theory Menu
  imports High_Score
begin

text \<open>
  The menu screen, \<open>Menu\<close> of \<open>src/src/scenes/Menu/index.tsx\<close> (lines 40--65): a
  heading, the \<open>Selector\<close> with one option per game mode, each labelled by
  \<open>ModeLabel\<close> with the mode and its stored high score, and the start hints. The
  view is the record \<open>menu_view\<close>; each option pairs the value the selector reports
  with its label.
\<close>

record menu_view =
  menu_heading :: string
  menu_items :: "(game_mode \<times> string \<times> int) list"
  menu_message :: string
  menu_hint :: string

definition render_menu :: "local_storage \<Rightarrow> string \<Rightarrow> menu_view" where
  "render_menu st k =
     \<lparr>menu_heading = ''Stratagem Savior'',
      menu_items = map (\<lambda>m. (m, mode_label st k m)) menu_options,
      menu_message = ''Use Stratagem Inputs to Start!'',
      menu_hint = ''(WASD or arrow keys)''\<rparr>"

end
