(* ===== verification/Game.thy ===== *)
theory Game
  imports High_Score
begin

text \<open>
  The game orchestrator. Its source, \<open>scenes/Game/index.tsx\<close>, is not under
  \<open>src/\<close>, so it is modelled from the spec (sections 4.2 and 5): it owns the mode,
  the round number, the score and the phase, mounts one \<open>Round\<close> at a time with
  props computed from a difficulty policy, and reacts to the round's callbacks. The
  scoring formula and the difficulty curve are left open by the spec; they are the
  parameters \<open>score_policy\<close> and \<open>difficulty_policy\<close>, and every result holds
  for all of them (some under the spec's requirement that a round is never empty).
  The round itself is the code's model of \<open>Round.thy\<close>; the high score is written
  by the code's game-over effect of \<open>High_Score.thy\<close>. Inputs that reach the game
  outside the playing phase are discarded, as the spec's cancellation rule asks.
\<close>

datatype phase = AtMenu | Playing | GameOver

record score_policy =
  input_points :: "nat \<Rightarrow> nat"
  round_points :: "nat \<Rightarrow> ms \<Rightarrow> nat"

record difficulty_policy =
  round_length_for :: "nat \<Rightarrow> ms"
  stratagems_for :: "game_mode \<Rightarrow> nat \<Rightarrow> stratagem list"

record game_state =
  g_mode :: game_mode
  g_round :: nat
  g_score :: nat
  g_phase :: phase
  g_store :: local_storage
  g_clock :: ms
  g_rs :: round_state

datatype game_event = Start game_mode ms | Input round_input | Reset

definition game_props :: "difficulty_policy \<Rightarrow> game_state \<Rightarrow> round_props" where
  "game_props dp g =
     \<lparr>mode = g_mode g, round_no = g_round g, roundLength = round_length_for dp (g_round g),
      score = g_score g, stratagems = stratagems_for dp (g_mode g) (g_round g)\<rparr>"

definition game_start :: "difficulty_policy \<Rightarrow> game_state \<Rightarrow> game_mode \<Rightarrow> ms \<Rightarrow> game_state" where
  "game_start dp g m t =
     (let g1 = g\<lparr>g_mode := m, g_round := 1, g_score := 0, g_phase := Playing, g_clock := t\<rparr>
      in g1\<lparr>g_rs := init_round (game_props dp g1) t t\<rparr>)"

fun game_on_output ::
  "score_policy \<Rightarrow> difficulty_policy \<Rightarrow> game_state \<Rightarrow> round_output \<Rightarrow> game_state" where
  "game_on_output sp dp g (InputSuccess i) =
     (if g_phase g = Playing then g\<lparr>g_score := g_score g + input_points sp i\<rparr> else g)"
| "game_on_output sp dp g InputFailure = g"
| "game_on_output sp dp g (RoundSuccess r) =
     (if g_phase g = Playing then
        (let cleared = length (stratagems (game_props dp g));
             g1 = g\<lparr>g_round := Suc (g_round g), g_score := g_score g + round_points sp cleared r\<rparr>
         in g1\<lparr>g_rs := init_round (game_props dp g1) (g_clock g) (g_clock g)\<rparr>)
      else g)"
| "game_on_output sp dp g RoundFailure =
     (if g_phase g = Playing then
        g\<lparr>g_phase := GameOver, g_store := game_over_effect (g_store g) (int (g_score g))\<rparr>
      else g)"

definition game_input ::
  "score_policy \<Rightarrow> difficulty_policy \<Rightarrow> game_state \<Rightarrow> round_input \<Rightarrow> round_error + game_state" where
  "game_input sp dp g e =
     (if g_phase g \<noteq> Playing then Inr g
      else case round_step (game_props dp g) (g_rs g) e of
             Inl err \<Rightarrow> Inl err
           | Inr (rs', outs) \<Rightarrow>
               Inr (fold (\<lambda>out g. game_on_output sp dp g out) outs
                      (g\<lparr>g_rs := rs', g_clock := clock_after (g_clock g) e\<rparr>)))"

fun game_step ::
  "score_policy \<Rightarrow> difficulty_policy \<Rightarrow> game_state \<Rightarrow> game_event \<Rightarrow> round_error + game_state" where
  "game_step sp dp g (Start m t) = Inr (if g_phase g = AtMenu then game_start dp g m t else g)"
| "game_step sp dp g (Input e) = game_input sp dp g e"
| "game_step sp dp g Reset = Inr (if g_phase g = GameOver then g\<lparr>g_phase := AtMenu\<rparr> else g)"

fun event_after :: "ms \<Rightarrow> game_event \<Rightarrow> bool" where
  "event_after c (Start m t) = (c \<le> t)"
| "event_after c (Input e) = input_after c e"
| "event_after c Reset = True"

inductive game_reach :: "score_policy \<Rightarrow> difficulty_policy \<Rightarrow> game_state \<Rightarrow> bool" for sp dp where
  menu: "g_phase g = AtMenu \<Longrightarrow> game_reach sp dp g"
| step: "game_reach sp dp g \<Longrightarrow> event_after (g_clock g) ev \<Longrightarrow> game_step sp dp g ev = Inr g' \<Longrightarrow>
    game_reach sp dp g'"

definition game_inv :: "difficulty_policy \<Rightarrow> game_state \<Rightarrow> bool" where
  "game_inv dp g \<longleftrightarrow> (g_phase g = Playing \<longrightarrow> round_reach (game_props dp g) (g_clock g) (g_rs g))"

definition nonempty_rounds :: "difficulty_policy \<Rightarrow> bool" where
  "nonempty_rounds dp \<longleftrightarrow> (\<forall>m r. stratagems_for dp m r \<noteq> [])"

text \<open>Policies and a playing state for the witnesses.\<close>

definition demo_difficulty :: difficulty_policy where
  "demo_difficulty = \<lparr>round_length_for = (\<lambda>r. 10000), stratagems_for = (\<lambda>m r. [demo_stratagem [Up]])\<rparr>"

definition demo_scoring :: score_policy where
  "demo_scoring = \<lparr>input_points = (\<lambda>i. 10), round_points = (\<lambda>n r. 100 * n)\<rparr>"

definition demo_playing :: "nat \<Rightarrow> game_state" where
  "demo_playing sc = \<lparr>g_mode = Classic, g_round = 1, g_score = sc, g_phase = Playing, g_store = Map.empty,
     g_clock = 0, g_rs = \<lparr>now = 0, end_time = 10000, sequenceIdx = 0, interval_on = True\<rparr>\<rparr>"

subsection \<open>The mounted round stays reachable\<close>

lemma round_step_cong:
  "stratagems p' = stratagems p \<Longrightarrow> roundLength p' = roundLength p \<Longrightarrow> round_step p' s e = round_step p s e"
  by (cases e) (simp_all add: on_input_success_def new_end_def Let_def split: option.split)

lemma round_reach_cong:
  "round_reach p c s \<Longrightarrow> stratagems p' = stratagems p \<Longrightarrow> roundLength p' = roundLength p \<Longrightarrow> round_reach p' c s"
proof (induction rule: round_reach.induct)
  case (mount t0 t1)
  then have "init_round p' t0 t1 = init_round p t0 t1" by (simp add: init_round_def)
  with mount show ?case by (metis round_reach.mount)
next
  case (step c s e s' out)
  then show ?case by (metis round_reach.step round_step_cong)
qed

lemma game_props_score [simp]:
  "stratagems (game_props dp (g\<lparr>g_score := x\<rparr>)) = stratagems (game_props dp g)"
  "roundLength (game_props dp (g\<lparr>g_score := x\<rparr>)) = roundLength (game_props dp g)"
  by (simp_all add: game_props_def)

lemma game_on_output_inv:
  assumes ne: "nonempty_rounds dp" and inv: "game_inv dp g"
  shows "game_inv dp (game_on_output sp dp g out)"
proof (cases out)
  case (InputSuccess i)
  show ?thesis
  proof (cases "g_phase g = Playing")
    case True
    with inv have "round_reach (game_props dp g) (g_clock g) (g_rs g)" by (simp add: game_inv_def)
    then have "round_reach (game_props dp (g\<lparr>g_score := g_score g + input_points sp i\<rparr>)) (g_clock g) (g_rs g)"
      by (rule round_reach_cong) simp_all
    with InputSuccess True show ?thesis by (simp add: game_inv_def)
  next
    case False
    with InputSuccess inv show ?thesis by simp
  qed
next
  case (RoundSuccess r)
  let ?g1 = "g\<lparr>g_round := Suc (g_round g), g_score := g_score g + round_points sp (length (stratagems (game_props dp g))) r\<rparr>"
  have "stratagems (game_props dp ?g1) \<noteq> []" using ne by (simp add: nonempty_rounds_def game_props_def)
  then have "round_reach (game_props dp ?g1) (g_clock g) (init_round (game_props dp ?g1) (g_clock g) (g_clock g))"
    by (rule round_reach.mount) simp
  moreover have "game_props dp (?g1\<lparr>g_rs := x\<rparr>) = game_props dp ?g1" for x by (simp add: game_props_def)
  ultimately show ?thesis using RoundSuccess inv by (simp add: game_inv_def Let_def)
qed (use inv in \<open>simp_all add: game_inv_def\<close>)

lemma fold_game_on_output_inv:
  "nonempty_rounds dp \<Longrightarrow> game_inv dp g \<Longrightarrow> game_inv dp (fold (\<lambda>out g. game_on_output sp dp g out) outs g)"
  by (induction outs arbitrary: g) (simp_all add: game_on_output_inv)

lemma game_step_inv:
  assumes ne: "nonempty_rounds dp" and inv: "game_inv dp g" and ev: "event_after (g_clock g) ev"
    and st: "game_step sp dp g ev = Inr g'"
  shows "game_inv dp g'"
proof (cases ev)
  case (Start m t)
  show ?thesis
  proof (cases "g_phase g = AtMenu")
    case True
    let ?g1 = "g\<lparr>g_mode := m, g_round := 1, g_score := 0, g_phase := Playing, g_clock := t\<rparr>"
    have "stratagems (game_props dp ?g1) \<noteq> []" using ne by (simp add: nonempty_rounds_def game_props_def)
    then have "round_reach (game_props dp ?g1) t (init_round (game_props dp ?g1) t t)"
      by (rule round_reach.mount) simp
    moreover have "game_props dp (?g1\<lparr>g_rs := x\<rparr>) = game_props dp ?g1" for x by (simp add: game_props_def)
    ultimately show ?thesis using Start True st by (auto simp: game_inv_def game_start_def Let_def)
  next
    case False
    with Start st inv show ?thesis by auto
  qed
next
  case (Input e)
  show ?thesis
  proof (cases "g_phase g = Playing")
    case True
    with inv have r: "round_reach (game_props dp g) (g_clock g) (g_rs g)" by (simp add: game_inv_def)
    then obtain rs' outs where rst: "round_step (game_props dp g) (g_rs g) e = Inr (rs', outs)"
      using round_reach_step_Inr by fastforce
    from Input ev have "input_after (g_clock g) e" by simp
    then have "round_reach (game_props dp g) (clock_after (g_clock g) e) rs'"
      by (rule round_reach.step [OF r _ rst])
    moreover have "game_props dp (g\<lparr>g_rs := rs', g_clock := c\<rparr>) = game_props dp g" for c
      by (simp add: game_props_def)
    ultimately have "game_inv dp (g\<lparr>g_rs := rs', g_clock := clock_after (g_clock g) e\<rparr>)"
      by (simp add: game_inv_def)
    then have "game_inv dp (fold (\<lambda>out g. game_on_output sp dp g out) outs
                 (g\<lparr>g_rs := rs', g_clock := clock_after (g_clock g) e\<rparr>))"
      by (rule fold_game_on_output_inv [OF ne])
    with Input True rst st show ?thesis by (simp add: game_input_def)
  next
    case False
    with Input st inv show ?thesis by (simp add: game_input_def)
  qed
next
  case Reset
  with st inv show ?thesis by (auto simp: game_inv_def split: if_splits)
qed

lemma game_reach_inv: "game_reach sp dp g \<Longrightarrow> nonempty_rounds dp \<Longrightarrow> game_inv dp g"
proof (induction rule: game_reach.induct)
  case (menu g)
  then show ?case by (simp add: game_inv_def)
next
  case (step g ev g')
  then show ?case by (blast intro: game_step_inv)
qed

text \<open>C19: With a difficulty policy that never yields an empty round (spec 4.3), no event raises in any reachable state of the game: the mounted round is always a reachable round state, so its stratagem read stays in range.\<close>

theorem game_never_raises:
  "nonempty_rounds dp \<Longrightarrow> game_reach sp dp g \<Longrightarrow> \<exists>g'. game_step sp dp g ev = Inr g'"
proof -
  assume ne: "nonempty_rounds dp" and r: "game_reach sp dp g"
  show ?thesis
  proof (cases ev)
    case (Input e)
    show ?thesis
    proof (cases "g_phase g = Playing")
      case True
      with game_reach_inv [OF r ne] have "round_reach (game_props dp g) (g_clock g) (g_rs g)"
        by (simp add: game_inv_def)
      then obtain rs' outs where "round_step (game_props dp g) (g_rs g) e = Inr (rs', outs)"
        using round_reach_step_Inr by fastforce
      with Input True show ?thesis by (simp add: game_input_def)
    next
      case False
      with Input show ?thesis by (simp add: game_input_def)
    qed
  qed simp_all
qed

lemma fold_game_on_output_idle:
  "g_phase g \<noteq> Playing \<Longrightarrow> fold (\<lambda>out g. game_on_output sp dp g out) outs g = g"
proof (induction outs)
  case (Cons out outs)
  then have "game_on_output sp dp g out = g" by (cases out) simp_all
  with Cons show ?case by simp
qed simp

text \<open>C20: Clearing the last stratagem of a round keeps the game playing, advances the round number, adds the points of the input and of the cleared round, and mounts a fresh round at index 0 with its deadline one round length after the clock.\<close>

theorem game_next_round:
  assumes "g_phase g = Playing" and "Suc (sequenceIdx (g_rs g)) = length (stratagems (game_props dp g))"
  shows "\<exists>r g'. game_step sp dp g (Input (ArrowSuccess t1 t2 t3)) = Inr g' \<and> g_phase g' = Playing \<and>
           g_round g' = Suc (g_round g) \<and>
           g_score g' = g_score g + input_points sp (sequenceIdx (g_rs g))
                        + round_points sp (length (stratagems (game_props dp g))) r \<and>
           g_rs g' = init_round (game_props dp g') t3 t3"
  using assms by (simp add: game_input_def on_input_success_last Let_def game_props_def) (rule exI, rule refl)

lemmas demo_game_simps = demo_difficulty_def demo_scoring_def demo_playing_def game_props_def demo_stratagem_def

lemma demo_nonempty_rounds: "nonempty_rounds demo_difficulty"
  by (simp add: nonempty_rounds_def demo_difficulty_def)

lemma demo_playing_reach: "game_reach demo_scoring demo_difficulty (demo_playing 0)"
proof -
  let ?g0 = "(demo_playing 0)\<lparr>g_phase := AtMenu\<rparr>"
  have m: "game_reach demo_scoring demo_difficulty ?g0" by (rule game_reach.menu) simp
  have "game_step demo_scoring demo_difficulty ?g0 (Start Classic 0) = Inr (demo_playing 0)"
    by (simp add: game_start_def demo_game_simps init_round_def)
  then show ?thesis
    by (rule game_reach.step [OF m, rotated]) (simp add: demo_playing_def)
qed

theorem game_never_raises_witness:
  "nonempty_rounds demo_difficulty \<and> game_reach demo_scoring demo_difficulty (demo_playing 0) \<and>
   (\<exists>g'. game_step demo_scoring demo_difficulty (demo_playing 0) (Input (Tick 10000)) = Inr g')"
  using demo_nonempty_rounds demo_playing_reach
    game_never_raises [OF demo_nonempty_rounds demo_playing_reach, of "Input (Tick 10000)"]
  by blast

theorem game_next_round_witness:
  "g_phase (demo_playing 5) = Playing \<and>
   Suc (sequenceIdx (g_rs (demo_playing 5))) = length (stratagems (game_props demo_difficulty (demo_playing 5))) \<and>
   (\<exists>r g'. game_step demo_scoring demo_difficulty (demo_playing 5) (Input (ArrowSuccess 1 1 1)) = Inr g' \<and>
      g_round g' = 2 \<and> g_rs g' = init_round (game_props demo_difficulty g') 1 1)"
proof -
  have h: "g_phase (demo_playing 5) = Playing"
    "Suc (sequenceIdx (g_rs (demo_playing 5))) = length (stratagems (game_props demo_difficulty (demo_playing 5)))"
    by (simp_all add: demo_game_simps)
  show ?thesis using h game_next_round [OF h, of demo_scoring 1 1 1] by (auto simp: demo_playing_def)
qed

end
