(* ===== verification/Game_Timing.thy ===== *)
theory Game_Timing
  imports Game Round_Timing
begin

text \<open>
  The game orchestrator of \<open>Game.thy\<close> driven by sequences of events
  (\<open>game_run\<close>), and the timing of the round it mounts as the game sees it: while
  the game is playing, the mounted round's interval is alive, so a game that
  receives no input ends within one round length of the interval's ticks, with the
  high score written once.
\<close>

fun game_run ::
  "score_policy \<Rightarrow> difficulty_policy \<Rightarrow> game_state \<Rightarrow> game_event list \<Rightarrow> round_error + game_state" where
  "game_run sp dp g [] = Inr g"
| "game_run sp dp g (ev # evs) =
     (case game_step sp dp g ev of Inl err \<Rightarrow> Inl err | Inr g' \<Rightarrow> game_run sp dp g' evs)"

definition live_when_playing :: "game_state \<Rightarrow> bool" where
  "live_when_playing g \<longleftrightarrow> (g_phase g = Playing \<longrightarrow> interval_on (g_rs g))"

subsection \<open>The mounted round is live while the game plays\<close>

lemma game_on_output_live:
  "live_when_playing g \<Longrightarrow> live_when_playing (game_on_output sp dp g out)"
  by (cases out) (simp_all add: live_when_playing_def init_round_def Let_def)

lemma fold_game_on_output_live:
  "live_when_playing g \<Longrightarrow> live_when_playing (fold (\<lambda>out g. game_on_output sp dp g out) outs g)"
  by (induction outs arbitrary: g) (simp_all add: game_on_output_live)

lemma round_step_live_or_fails:
  assumes "interval_on s" and "round_step p s e = Inr (s', outs)"
  shows "interval_on s' \<or> outs = [RoundFailure]"
proof (cases e)
  case (Tick t)
  with assms show ?thesis by (auto simp: on_tick_def split: if_splits)
next
  case (ArrowSuccess t1 t2 t3)
  with assms have "on_input_success p s t1 t2 t3 = Inr (s', outs)" by simp
  then show ?thesis
  proof (cases rule: on_input_success_cases)
    case advance
    with assms ArrowSuccess show ?thesis by (auto simp: on_input_success_next Let_def)
  qed (use assms in simp)
next
  case ArrowFailure
  with assms show ?thesis by simp
qed

lemma game_step_live:
  assumes "live_when_playing g" and "game_step sp dp g ev = Inr g'"
  shows "live_when_playing g'"
proof (cases ev)
  case (Input e)
  show ?thesis
  proof (cases "g_phase g = Playing")
    case True
    with Input assms(2) obtain rs' outs where rst: "round_step (game_props dp g) (g_rs g) e = Inr (rs', outs)"
      and g': "g' = fold (\<lambda>out g. game_on_output sp dp g out) outs (g\<lparr>g_rs := rs', g_clock := clock_after (g_clock g) e\<rparr>)"
      by (auto simp: game_input_def split: sum.splits prod.splits)
    from True assms(1) have "interval_on (g_rs g)" by (simp add: live_when_playing_def)
    from round_step_live_or_fails [OF this rst] show ?thesis
    proof
      assume "interval_on rs'"
      then show ?thesis unfolding g' by (intro fold_game_on_output_live) (simp add: live_when_playing_def)
    next
      assume "outs = [RoundFailure]"
      with True show ?thesis unfolding g' by (simp add: live_when_playing_def)
    qed
  next
    case False
    with Input assms show ?thesis by (simp add: game_input_def)
  qed
qed (use assms in \<open>auto simp: live_when_playing_def game_start_def init_round_def Let_def split: if_splits\<close>)

lemma game_reach_live: "game_reach sp dp g \<Longrightarrow> live_when_playing g"
proof (induction rule: game_reach.induct)
  case (menu g)
  then show ?case by (simp add: live_when_playing_def)
next
  case (step g ev g')
  then show ?case by (blast intro: game_step_live)
qed

subsection \<open>Runs of ticks\<close>

lemma game_run_inputs_idle:
  "g_phase g \<noteq> Playing \<Longrightarrow> game_run sp dp g (map Input es) = Inr g"
  by (induction es) (simp_all add: game_input_def)

lemma game_run_ticks_expire:
  "g_phase g = Playing \<Longrightarrow> interval_on (g_rs g) \<Longrightarrow> \<exists>t\<in>set ts. end_time (g_rs g) \<le> t \<Longrightarrow>
   \<exists>g'. game_run sp dp g (map Input (map Tick ts)) = Inr g' \<and> g_phase g' = GameOver \<and>
        g_score g' = g_score g \<and> g_store g' = game_over_effect (g_store g) (int (g_score g))"
proof (induction ts arbitrary: g)
  case Nil
  then show ?case by simp
next
  case (Cons t ts)
  show ?case
  proof (cases "end_time (g_rs g) \<le> t")
    case True
    let ?g1 = "g\<lparr>g_rs := (g_rs g)\<lparr>now := t, interval_on := False\<rparr>, g_clock := t,
                 g_phase := GameOver, g_store := game_over_effect (g_store g) (int (g_score g))\<rparr>"
    from True Cons.prems have "game_step sp dp g (Input (Tick t)) = Inr ?g1"
      by (simp add: game_input_def on_tick_def)
    moreover have "game_run sp dp ?g1 (map Input (map Tick ts)) = Inr ?g1"
      by (rule game_run_inputs_idle) simp
    ultimately show ?thesis by simp
  next
    case False
    let ?g1 = "g\<lparr>g_rs := (g_rs g)\<lparr>now := t\<rparr>, g_clock := t\<rparr>"
    from False Cons.prems have "game_step sp dp g (Input (Tick t)) = Inr ?g1"
      by (simp add: game_input_def on_tick_def)
    moreover from False Cons.prems have "\<exists>t\<in>set ts. end_time (g_rs ?g1) \<le> t" by auto
    with Cons.prems Cons.IH [of ?g1] obtain g' where "game_run sp dp ?g1 (map Input (map Tick ts)) = Inr g'"
      and "g_phase g' = GameOver" "g_score g' = g_score g"
      "g_store g' = game_over_effect (g_store g) (int (g_score g))" by auto
    ultimately show ?thesis by auto
  qed
qed

subsection \<open>Properties\<close>

text \<open>C31: A game that receives no input ends: from any reachable playing state, once
  the mounted round's interval has ticked for one round length, the game is over,
  the score is unchanged, the high score has been written by the game-over effect on
  that score, and any later input is discarded.\<close>

theorem game_ends_without_input:
  assumes "game_reach sp dp g" and "nonempty_rounds dp" and "g_phase g = Playing"
    and "0 < n" and "round_length_for dp (g_round g) \<le> of_nat n * interval_period"
  shows "\<exists>g'. game_run sp dp g (map Input (tick_train (g_clock g) n)) = Inr g' \<and>
           g_phase g' = GameOver \<and> g_score g' = g_score g \<and>
           g_store g' = game_over_effect (g_store g) (int (g_score g)) \<and>
           (\<forall>es. game_run sp dp g' (map Input es) = Inr g')"
proof -
  from game_reach_inv [OF assms(1,2)] assms(3)
  have "round_reach (game_props dp g) (g_clock g) (g_rs g)" by (simp add: game_inv_def)
  then have "end_time (g_rs g) \<le> g_clock g + of_nat n * interval_period"
    using assms(5) by (auto dest!: round_reach_inv simp: round_inv_def game_props_def)
  moreover have "g_clock g + of_nat n * interval_period \<in> set (map (\<lambda>k. g_clock g + of_nat k * interval_period) [1..<Suc n])"
    using assms(4) by auto
  moreover from game_reach_live [OF assms(1)] assms(3) have "interval_on (g_rs g)"
    by (simp add: live_when_playing_def)
  ultimately obtain g' where "game_run sp dp g (map Input (map Tick (map (\<lambda>k. g_clock g + of_nat k * interval_period) [1..<Suc n]))) = Inr g'"
    and "g_phase g' = GameOver" "g_score g' = g_score g" "g_store g' = game_over_effect (g_store g) (int (g_score g))"
    using game_run_ticks_expire [OF assms(3)] by blast
  then show ?thesis by (auto simp: tick_train_ticks game_run_inputs_idle)
qed

theorem game_ends_without_input_witness:
  "game_reach demo_scoring demo_difficulty (demo_playing 0) \<and> nonempty_rounds demo_difficulty \<and>
   g_phase (demo_playing 0) = Playing \<and> 0 < (600::nat) \<and>
   round_length_for demo_difficulty (g_round (demo_playing 0)) \<le> of_nat 600 * interval_period \<and>
   (\<exists>g'. game_run demo_scoring demo_difficulty (demo_playing 0) (map Input (tick_train (g_clock (demo_playing 0)) 600)) = Inr g' \<and>
      g_phase g' = GameOver \<and> g_score g' = 0 \<and>
      g_store g' = game_over_effect Map.empty 0 \<and>
      (\<forall>es. game_run demo_scoring demo_difficulty g' (map Input es) = Inr g'))"
proof -
  have h2: "g_phase (demo_playing 0) = Playing" "0 < (600::nat)"
    "round_length_for demo_difficulty (g_round (demo_playing 0)) \<le> of_nat 600 * interval_period"
    by (simp_all add: demo_game_simps interval_period_def)
  note h = demo_playing_reach demo_nonempty_rounds h2
  have "g_score (demo_playing 0) = 0" "g_store (demo_playing 0) = Map.empty" by (simp_all add: demo_playing_def)
  with h game_ends_without_input [OF h] show ?thesis by simp
qed

end
