(* ===== verification/Round_Spec.thy ===== *)
theory Round_Spec
  imports Round
begin

text \<open>
  The abstract round machine of the spec (section 4.1) and the refinement of it by the
  code's round engine. The spec's round is \<open>SActive\<close> with an index and a deadline,
  or terminal \<open>SSucceeded\<close> / \<open>SFailed\<close>; a success extends from
  \<open>max(deadline, now)\<close> and clamps the result to \<open>now + roundLength\<close>, reading
  the clock once. \<open>abs_round\<close> maps a code state with a live interval to
  \<open>SActive\<close> and one with a cleared interval to \<open>SFailed\<close>. The code implements
  the machine step by step for inputs that are \<open>timely\<close> (one clock reading per
  handler, and a success not after the deadline), and over whole runs of the round
  as its parent mounts it: \<open>mounted_run\<close> stops at the first round success or
  failure, when the parent unmounts the round (spec section 5). Outside these
  conditions the code departs from the spec; the divergences are the claims C2, C10 and
  C23 of \<open>Round\<close>.
\<close>

datatype spec_round = SActive nat ms | SSucceeded | SFailed

definition spec_extension :: "round_props \<Rightarrow> nat \<Rightarrow> ms" where
  "spec_extension p i = timer_extension (length (sequence (stratagems p ! i)))"

fun spec_round_step :: "round_props \<Rightarrow> spec_round \<Rightarrow> round_input \<Rightarrow> spec_round \<times> round_output list" where
  "spec_round_step p (SActive i d) (Tick t) =
     (if d \<le> t then (SFailed, [RoundFailure]) else (SActive i d, []))"
| "spec_round_step p (SActive i d) (ArrowSuccess t t' t'') =
     (let e = min (max d t + spec_extension p i) (t + roundLength p)
      in if Suc i = length (stratagems p) then (SSucceeded, [InputSuccess i, RoundSuccess (e - t)])
         else (SActive (Suc i) e, [InputSuccess i]))"
| "spec_round_step p (SActive i d) ArrowFailure = (SActive i d, [InputFailure])"
| "spec_round_step p a e = (a, [])"

definition abs_round :: "round_state \<Rightarrow> spec_round" where
  "abs_round s = (if interval_on s then SActive (sequenceIdx s) (end_time s) else SFailed)"

fun is_round_success :: "round_output \<Rightarrow> bool" where
  "is_round_success (RoundSuccess r) = True"
| "is_round_success out = False"

fun timely :: "round_state \<Rightarrow> round_input \<Rightarrow> bool" where
  "timely s (ArrowSuccess t1 t2 t3) = (t1 = t2 \<and> t2 = t3 \<and> t1 \<le> end_time s)"
| "timely s e = True"

fun is_terminal :: "round_output \<Rightarrow> bool" where
  "is_terminal (RoundSuccess r) = True"
| "is_terminal RoundFailure = True"
| "is_terminal out = False"

fun spec_round_run :: "round_props \<Rightarrow> spec_round \<Rightarrow> round_input list \<Rightarrow> spec_round \<times> round_output list" where
  "spec_round_run p a [] = (a, [])"
| "spec_round_run p a (e # es) =
     (let (a', out) = spec_round_step p a e; (a'', out') = spec_round_run p a' es in (a'', out @ out'))"

fun mounted_run :: "round_props \<Rightarrow> round_state \<Rightarrow> round_input list \<Rightarrow> round_error + round_output list" where
  "mounted_run p s [] = Inr []"
| "mounted_run p s (e # es) =
     (case round_step p s e of
        Inl err \<Rightarrow> Inl err
      | Inr (s', out) \<Rightarrow>
          if list_ex is_terminal out then Inr out
          else (case mounted_run p s' es of Inl err \<Rightarrow> Inl err | Inr out' \<Rightarrow> Inr (out @ out')))"

fun timely_run :: "round_props \<Rightarrow> round_state \<Rightarrow> round_input list \<Rightarrow> bool" where
  "timely_run p s [] = True"
| "timely_run p s (e # es) =
     (timely s e \<and>
      (case round_step p s e of
         Inl err \<Rightarrow> True
       | Inr (s', out) \<Rightarrow> list_ex is_terminal out \<or> timely_run p s' es))"

lemma new_end_spec:
  "t \<le> end_time s \<Longrightarrow>
   new_end p s (stratagems p ! sequenceIdx s) t t =
     min (max (end_time s) t + spec_extension p (sequenceIdx s)) (t + roundLength p)"
  by (simp add: new_end_def clamped_end_def spec_extension_def max_absorb1 min_def)

text \<open>The one-step simulation, shared by the refinement lemmas below.\<close>

lemma round_step_simulation:
  assumes live: "interval_on s" and tm: "timely s e" and ok: "round_step p s e = Inr (s', out)"
  shows "spec_round_step p (abs_round s) e =
           (if list_ex is_round_success out then SSucceeded else abs_round s', out)"
proof (cases e)
  case (Tick t)
  with ok have "(s', out) = on_tick s t" by simp
  with live show ?thesis using Tick by (auto simp: on_tick_def abs_round_def split: if_splits)
next
  case (ArrowSuccess t1 t2 t3)
  with tm have t: "t2 = t1" "t3 = t1" "t1 \<le> end_time s" by simp_all
  with ArrowSuccess ok have ois: "on_input_success p s t1 t1 t1 = Inr (s', out)" by simp
  have lt: "sequenceIdx s < length (stratagems p)"
  proof (rule ccontr)
    assume "\<not> ?thesis"
    with ois show False by (simp add: on_input_success_None)
  qed
  show ?thesis
  proof (cases "Suc (sequenceIdx s) = length (stratagems p)")
    case True
    with ois have "s' = s" and "out = [InputSuccess (sequenceIdx s),
        RoundSuccess (new_end p s (stratagems p ! sequenceIdx s) t1 t1 - t1)]"
      by (auto simp: on_input_success_last)
    with True t live ArrowSuccess show ?thesis by (simp add: abs_round_def new_end_spec Let_def)
  next
    case False
    with lt have nx: "Suc (sequenceIdx s) < length (stratagems p)" by simp
    with ois have "s' = s\<lparr>sequenceIdx := Suc (sequenceIdx s),
        end_time := new_end p s (stratagems p ! sequenceIdx s) t1 t1,
        interval_on := (new_end p s (stratagems p ! sequenceIdx s) t1 t1 \<noteq> end_time s \<or> interval_on s)\<rparr>"
      and "out = [InputSuccess (sequenceIdx s)]"
      by (simp_all add: on_input_success_next Let_def)
    with False t live ArrowSuccess show ?thesis by (simp add: abs_round_def new_end_spec Let_def)
  qed
next
  case ArrowFailure
  with ok live show ?thesis by (auto simp: abs_round_def)
qed

text \<open>C24: Refinement, one step: for a round whose interval is live and a timely input,
  the code's step reports exactly the outputs of the spec machine's step from the
  abstraction of the code state, and ends in the abstraction of the new code state,
  except that the spec moves to \<open>SSucceeded\<close> where the code reports the round
  success and keeps its state.\<close>

theorem round_step_refines_spec:
  assumes live: "interval_on s" and tm: "timely s e" and ok: "round_step p s e = Inr (s', out)"
  shows "spec_round_step p (abs_round s) e =
           (if list_ex is_round_success out then SSucceeded else abs_round s', out)"
  using live tm ok by (rule round_step_simulation)

lemma spec_round_run_final:
  "spec_round_run p SSucceeded es = (SSucceeded, [])" "spec_round_run p SFailed es = (SFailed, [])"
  by (induction es) simp_all

lemma round_step_live:
  assumes "interval_on s" and "round_step p s e = Inr (s', out)" and "\<not> list_ex is_terminal out"
  shows "interval_on s'"
proof (cases e)
  case (Tick t)
  with assms show ?thesis by (auto simp: on_tick_def split: if_splits)
next
  case (ArrowSuccess t1 t2 t3)
  with assms(2) have "on_input_success p s t1 t2 t3 = Inr (s', out)" by simp
  then show ?thesis
  proof (cases rule: on_input_success_cases)
    case final
    with assms(3) show ?thesis by simp
  next
    case advance
    with assms(1,2) ArrowSuccess show ?thesis by (auto simp: on_input_success_next Let_def)
  qed
next
  case ArrowFailure
  with assms show ?thesis by simp
qed

lemma list_ex_is_terminal:
  "list_ex is_terminal out \<longleftrightarrow> list_ex is_round_success out \<or> RoundFailure \<in> set out"
  by (induction out) (auto elim: is_terminal.elims is_round_success.elims)

lemma round_step_failure_clears:
  assumes "round_step p s e = Inr (s', out)" and "RoundFailure \<in> set out"
  shows "\<not> interval_on s'"
proof (cases e)
  case (Tick t)
  with assms show ?thesis by (auto simp: on_tick_def split: if_splits)
next
  case (ArrowSuccess t1 t2 t3)
  with assms(1) have "on_input_success p s t1 t2 t3 = Inr (s', out)" by simp
  then show ?thesis by (cases rule: on_input_success_cases) (use assms(2) in simp_all)
next
  case ArrowFailure
  with assms show ?thesis by auto
qed

text \<open>C25: Refinement, whole runs: while the round is mounted (until its first round
  success or failure) and every input is timely, the callbacks the code calls are
  exactly the outputs of the spec machine run from the abstraction of the starting
  state.\<close>

theorem mounted_run_refines_spec:
  "interval_on s \<Longrightarrow> timely_run p s es \<Longrightarrow> mounted_run p s es = Inr out \<Longrightarrow>
   out = snd (spec_round_run p (abs_round s) es)"
proof (induction es arbitrary: s out)
  case Nil
  then show ?case by simp
next
  case (Cons e es)
  from Cons.prems(3) obtain s' o1 where st: "round_step p s e = Inr (s', o1)"
    by (auto split: sum.splits prod.splits)
  from Cons.prems(2) st have tm: "timely s e"
    and tr: "\<not> list_ex is_terminal o1 \<Longrightarrow> timely_run p s' es" by simp_all
  have sp: "spec_round_step p (abs_round s) e =
      (if list_ex is_round_success o1 then SSucceeded else abs_round s', o1)"
    by (rule round_step_simulation [OF Cons.prems(1) tm st])
  show ?case
  proof (cases "list_ex is_terminal o1")
    case True
    with Cons.prems(3) st have o: "out = o1" by simp
    have "(if list_ex is_round_success o1 then SSucceeded else abs_round s') \<in> {SSucceeded, SFailed}"
    proof (cases "list_ex is_round_success o1")
      case False
      with True have "RoundFailure \<in> set o1" by (simp add: list_ex_is_terminal)
      with st have "\<not> interval_on s'" by (rule round_step_failure_clears)
      with False show ?thesis by (simp add: abs_round_def)
    qed simp
    with sp o show ?thesis by (auto simp: spec_round_run_final)
  next
    case False
    with Cons.prems(3) st obtain o2 where m: "mounted_run p s' es = Inr o2" and o: "out = o1 @ o2"
      by (auto split: sum.splits)
    have live: "interval_on s'" by (rule round_step_live [OF Cons.prems(1) st False])
    from False have "\<not> list_ex is_round_success o1" by (simp add: list_ex_is_terminal)
    with sp have "spec_round_step p (abs_round s) e = (abs_round s', o1)" by simp
    moreover have "o2 = snd (spec_round_run p (abs_round s') es)" by (rule Cons.IH [OF live tr [OF False] m])
    ultimately show ?thesis using o by (simp add: split_def Let_def)
  qed
qed

theorem round_step_refines_spec_witness:
  "interval_on (init_round (demo_props 10000 [demo_stratagem [Up, Down, Left]]) 0 0) \<and>
   timely (init_round (demo_props 10000 [demo_stratagem [Up, Down, Left]]) 0 0) (ArrowSuccess 1000 1000 1000) \<and>
   round_step (demo_props 10000 [demo_stratagem [Up, Down, Left]])
     (init_round (demo_props 10000 [demo_stratagem [Up, Down, Left]]) 0 0) (ArrowSuccess 1000 1000 1000) =
     Inr (init_round (demo_props 10000 [demo_stratagem [Up, Down, Left]]) 0 0, [InputSuccess 0, RoundSuccess (29000 / 3)]) \<and>
   spec_round_step (demo_props 10000 [demo_stratagem [Up, Down, Left]])
     (abs_round (init_round (demo_props 10000 [demo_stratagem [Up, Down, Left]]) 0 0)) (ArrowSuccess 1000 1000 1000) =
     (SSucceeded, [InputSuccess 0, RoundSuccess (29000 / 3)])"
proof -
  let ?p = "demo_props 10000 [demo_stratagem [Up, Down, Left]]"
  let ?s = "init_round ?p 0 0"
  have h1: "interval_on ?s" and h2: "timely ?s (ArrowSuccess 1000 1000 1000)" by (simp_all add: demo_simps)
  have h3: "round_step ?p ?s (ArrowSuccess 1000 1000 1000) = Inr (?s, [InputSuccess 0, RoundSuccess (29000 / 3)])"
    by (simp add: demo_simps on_input_success_def new_end_def clamped_end_def timer_extension_eq)
  show ?thesis using h1 h2 h3 round_step_refines_spec [OF h1 h2 h3] by simp
qed

theorem mounted_run_refines_spec_witness:
  "interval_on (init_round (demo_props 10000 [demo_stratagem [Up], demo_stratagem [Down]]) 0 0) \<and>
   timely_run (demo_props 10000 [demo_stratagem [Up], demo_stratagem [Down]])
     (init_round (demo_props 10000 [demo_stratagem [Up], demo_stratagem [Down]]) 0 0)
     [Tick 5000, ArrowSuccess 6000 6000 6000, ArrowFailure, Tick 20000, ArrowSuccess 20001 20001 20001] \<and>
   mounted_run (demo_props 10000 [demo_stratagem [Up], demo_stratagem [Down]])
     (init_round (demo_props 10000 [demo_stratagem [Up], demo_stratagem [Down]]) 0 0)
     [Tick 5000, ArrowSuccess 6000 6000 6000, ArrowFailure, Tick 20000, ArrowSuccess 20001 20001 20001] =
     Inr [InputSuccess 0, InputFailure, RoundFailure] \<and>
   [InputSuccess 0, InputFailure, RoundFailure] =
     snd (spec_round_run (demo_props 10000 [demo_stratagem [Up], demo_stratagem [Down]])
       (abs_round (init_round (demo_props 10000 [demo_stratagem [Up], demo_stratagem [Down]]) 0 0))
       [Tick 5000, ArrowSuccess 6000 6000 6000, ArrowFailure, Tick 20000, ArrowSuccess 20001 20001 20001])"
proof -
  let ?p = "demo_props 10000 [demo_stratagem [Up], demo_stratagem [Down]]"
  let ?s = "init_round ?p 0 0"
  let ?es = "[Tick 5000, ArrowSuccess 6000 6000 6000, ArrowFailure, Tick 20000, ArrowSuccess 20001 20001 20001]"
  have h1: "interval_on ?s" by (simp add: demo_simps)
  have h2: "timely_run ?p ?s ?es"
    by (simp add: demo_simps on_tick_def on_input_success_def new_end_def clamped_end_def timer_extension_eq)
  have h3: "mounted_run ?p ?s ?es = Inr [InputSuccess 0, InputFailure, RoundFailure]"
    by (simp add: demo_simps on_tick_def on_input_success_def new_end_def clamped_end_def timer_extension_eq)
  show ?thesis using h1 h2 h3 mounted_run_refines_spec [OF h1 h2 h3] by simp
qed

end
