(* ===== verification/Round_Screen.thy ===== *)
theory Round_Screen
  imports High_Score
begin

text \<open>
  The whole screen \<open>Round\<close> returns (\<open>src/src/scenes/Game/round.tsx\<close>, lines
  101--141): the round number on the left (lines 103--106), the icon strip, name,
  input and progress bar of \<open>render_round\<close> in the middle, and on the right the
  score and the stored high score of the round's mode (lines 134--139). Every number
  turns red with the danger flag. The screen is one render: when line 117 throws,
  nothing of it is shown.
\<close>

record round_panel =
  panel_round :: nat
  panel_score :: nat
  panel_highest :: int
  panel_danger :: bool

definition render_round_panel ::
  "local_storage \<Rightarrow> string \<Rightarrow> round_props \<Rightarrow> round_state \<Rightarrow> round_panel" where
  "render_round_panel st k p s =
     \<lparr>panel_round = round_no p, panel_score = score p,
      panel_highest = round_high_score st k p, panel_danger = danger (end_time s) (now s)\<rparr>"

definition render_round_screen ::
  "local_storage \<Rightarrow> string \<Rightarrow> round_props \<Rightarrow> round_state \<Rightarrow> round_error + round_view \<times> round_panel" where
  "render_round_screen st k p s =
     (case render_round p s of
        Inl err \<Rightarrow> Inl err
      | Inr v \<Rightarrow> Inr (v, render_round_panel st k p s))"

text \<open>C32: A round mounted with an empty stratagem list cannot render: line 117 reads
  \<open>.name\<close> of \<open>stratagems[0]\<close>, which is undefined, so the whole screen raises a
  \<open>TypeError\<close> instead of showing anything.\<close>

theorem empty_round_screen_raises:
  "stratagems p = [] \<Longrightarrow> render_round_screen st k p s = Inl (StratagemUndefined (sequenceIdx s))"
  by (simp add: render_round_screen_def render_round_def)

theorem empty_round_screen_raises_witness:
  "stratagems (demo_props 10000 []) = [] \<and>
   render_round_screen Map.empty ''ssgHighScore'' (demo_props 10000 []) (init_round (demo_props 10000 []) 0 0) =
     Inl (StratagemUndefined 0)"
  using empty_round_screen_raises [of "demo_props 10000 []" Map.empty "''ssgHighScore''" "init_round (demo_props 10000 []) 0 0"]
  by (simp add: demo_simps)

end
