(* ===== verification/Spec2Isabelle.thy ===== *)
theory Spec2Isabelle
  imports App Menu Game_Timing Round_Spec Round_Screen
begin

text \<open>
  \<^bold>\<open>A verification development for Stratagem Savior.\<close>
  The program is a React game: the player repeats directional input sequences
  (stratagems) before a countdown runs out, round after round. Four source files are
  in the repository: \<open>src/src/App.tsx\<close> (the shell switching between menu and game),
  \<open>src/src/scenes/Menu/index.tsx\<close> (mode selection and per-mode high scores),
  \<open>src/src/scenes/Game/round.tsx\<close> (the round engine, the core) and
  \<open>src/app/scenes/Game/game-over.tsx\<close> (the game-over screen and high-score write).
  The game orchestrator \<open>scenes/Game/index.tsx\<close>, the stratagem catalog, the
  \<open>ArrowInput\<close> matcher, sounds and styling are not in the repository.

  \<^bold>\<open>How the parts interact.\<close> \<open>App\<close> mounts \<open>Menu\<close> or the game. The
  game mounts one \<open>Round\<close> at a time; \<open>ArrowInput\<close> calls the round's
  \<open>onSuccess\<close>/\<open>onFailure\<close>, an interval ticks it, and the round calls its
  parent's \<open>onInputSuccess\<close>, \<open>onInputFailure\<close>, \<open>onRoundSuccess\<close> and
  \<open>onRoundFailure\<close>. On failure the game shows \<open>GameOver\<close>, whose effect
  writes the high score to local storage.

  \<^bold>\<open>Theories.\<close>
  \<^item> \<open>Prelude\<close>: the time type \<open>ms\<close> (JavaScript numbers as exact rationals,
    since the timer factor 500/9 is not an integer; the doubles of the code round these
    values, far below a millisecond at the magnitudes of \<open>Date.now()\<close>), JavaScript
    array reads (\<open>js_index\<close>, undefined out of range) and \<open>slice\<close>
    (\<open>js_slice\<close>), lemmas on error sums, and the \<open>round_defs\<close> collection.
  \<^item> \<open>Catalog\<close>: the stratagem record, directions and \<open>game_mode\<close>, from the
    spec (their declarations are outside \<open>src/\<close>).
  \<^item> \<open>Timer_Policy\<close>: \<open>round.tsx\<close> lines 13--15, 45--46, 52--55:
    \<open>timerIncrementMax/Base/Factor\<close>, \<open>timer_extension\<close>, the clamp
    \<open>clamped_end\<close>, \<open>timer\<close> and \<open>danger\<close>; claims C17--C18.
  \<^item> \<open>Round\<close>: the \<open>Round\<close> component. \<open>round_props\<close> are its props,
    \<open>round_state\<close> its \<open>useState\<close> cells plus whether the interval is alive.
    \<open>init_round\<close> is the mount, \<open>on_tick\<close> the interval callback (lines 73--85),
    \<open>on_input_success\<close> with \<open>new_end\<close> the callback \<open>onInputSuccessCb\<close>
    (lines 50--63), \<open>round_step\<close> the dispatch of the three inputs (lines 120--125),
    \<open>render_round\<close> the render (lines 87--131: icon strip, current stratagem, danger,
    time left and the \<open>blind\<close> prop of \<open>ArrowInput\<close>). Every \<open>Date.now()\<close> of a handler
    is its own parameter. A read of \<open>stratagems[sequenceIdx]\<close> out of range is the
    error \<open>StratagemUndefined\<close>. \<open>round_run\<close> runs a list of inputs;
    \<open>round_reach\<close> is the set of states reachable from a mount with a non-empty
    list while the clock never goes back, and \<open>round_inv\<close> (index in range,
    displayed time and deadline bounded by the clock) is proved for all of them by rule
    induction, one preservation lemma per handler. \<open>round_run_ticks\<close> gives the
    outcome of any sequence of ticks (C9), and wrong inputs can be dropped from any run
    without changing its result (C7, the spec's forgiveness policy). Claims C1--C10
    and C23.
  \<^item> \<open>Round_Timing\<close>: the interval's period \<open>1000 / 60\<close> (line 82) and the train
    of ticks it delivers without input (\<open>tick_train\<close>). A live round ends after one
    round length of ticks (C26, termination); a success and an expiring tick of the
    same instant are decided by their order (C27, the ordering of spec 5); in every
    round of at least two stratagems the time left shown exceeds \<open>roundLength\<close> in
    some reachable state (C30).
  \<^item> \<open>Round_Screen\<close>: the whole screen of lines 101--141, the icon strip of
    \<open>render_round\<close> with the side panels (\<open>render_round_panel\<close>: round, score,
    stored high score, danger colour). An empty round raises instead of rendering
    (C32).
  \<^item> \<open>Round_Spec\<close>: the spec's abstract round machine (Active, Succeeded,
    Failed) and the refinement of it by the code's round step (C24) and by the runs of a
    round while it is mounted (C25), for timely inputs: one clock reading per handler
    and no success after the deadline. These conditions are exactly where the
    divergences C2, C10 and C23 lie.
  \<^item> \<open>High_Score\<close>: local storage as a map, \<open>read_store\<close> for
    \<open>useLocalStorage\<close>'s default, \<open>game_over_effect\<close> and
    \<open>game_over_message\<close> of \<open>GameOver\<close>, the per-mode key
    \<open>high_score_key\<close> and labels of \<open>Menu\<close> and of \<open>Round\<close> line 43
    (\<open>highScoreKey\<close> is a parameter: it lives outside \<open>src/\<close>), and
    \<open>game_over_mount\<close>, the mount of \<open>GameOver\<close> as React runs it: render,
    effect, re-render when the store changed, effect again. Claims C11--C14, the
    equivalence of a sequence of game overs with one on the best score (C28) and the
    frames of the mount (C29).
  \<^item> \<open>Menu\<close>: the rendered menu of lines 40--65 (\<open>render_menu\<close>).
  \<^item> \<open>App\<close>: the \<open>playing\<close> flag, \<open>Menu\<close>'s \<open>onSelect\<close>, the start and
    reset events. Claims C15--C16.
  \<^item> \<open>Game\<close>: the orchestrator, modelled from spec 4.2 and 5 since its source is
    absent: phases, round number, score, store, clock and the mounted round state; the
    scoring and difficulty curves are parameters. It composes the code's round engine
    and game-over effect. Its invariant \<open>game_inv\<close> says the mounted round is always
    a reachable round state. Claims C19 and C20. The orchestrator holds one round state
    at a time, so a finished round's interval is gone once the next round is mounted;
    this stands for the cleanup of line 84 and is an assumption of the model, not a
    property proved of the code. Which game-over screen the orchestrator mounts is not
    in the repository either: \<open>src/app/scenes/Game/game-over.tsx\<close> lies beside the
    \<open>src/src\<close> tree that \<open>App\<close>, \<open>Menu\<close> and \<open>Round\<close> import from, and the
    model takes it as the one mounted.
  \<^item> \<open>Game_Timing\<close>: \<open>game_run\<close> over lists of events, the invariant that the
    mounted round's interval is alive while the game plays, and the termination of a
    game without input, high score written once and later inputs discarded (C31).
  \<^item> this theory: properties spanning the game, the round and the stores (C21, C22).

  \<^bold>\<open>Bounds and termination.\<close> Every loop of the program is event driven; runs are
  recursion over finite input lists, so no fuel is needed. What must terminate is the
  round itself: with no input, \<open>n\<close> ticks of the interval end it as soon as
  \<open>roundLength \<le> n * 1000/60\<close> (C26), and end the game with it (C31); the witnesses
  use 6 ticks for a 100 ms round and 600 ticks for a 10 s round. The quantitative
  bounds are of time: the deadline stays within \<open>roundLength\<close> of the clock (C1,
  C21), the remaining time reported with a success is within \<open>(0, roundLength]\<close>
  (C6), the time left shown is within \<open>roundLength\<close> plus the time since the last
  tick, an overshoot reached in every round of two or more stratagems (C30), the extension is at most \<open>timerIncrementMax\<close> exactly for sequences
  of at most nine inputs (C17).

  \<^bold>\<open>What the modelling showed.\<close> The extension is added to the old deadline even
  when it has passed but no tick has run yet, where the spec asks for
  \<open>max(deadline, now) + extension\<close> (C2). After \<open>onRoundSuccess\<close> the round
  keeps its interval, so a late tick may still report failure before the parent unmounts
  it (C10); a success after the failure re-arms the interval and the round goes on
  (C23). The extension is never clamped to \<open>timerIncrementMax\<close> (C17). The
  game-over screen writes the global key \<open>ssgHighScoreV1\<close>, which the menu and the
  round never read (C13). \<open>App\<close> drops the mode chosen in the menu (C15). The
  progress bar can show more than the full round length just after a success, since
  \<open>now\<close> is refreshed only by the interval (C30). The game-over screen's first frame
  shows the previous high score (C29). An empty round crashes the render (C32).

  \<^bold>\<open>Not modelled.\<close> Rendering and styling beyond the values the render reads,
  sounds (the start cue of the menu is modelled as an output; the background music
  effect of \<open>round.tsx\<close> lines 65--71 and \<open>loadSounds()\<close> of \<open>App\<close> are playback
  with no state the program reads), asset loading and \<open>ArrowInput\<close>'s key matching (it is the source of the
  round's inputs). React's scheduling is taken as one handler at a time, each run to
  completion, as the spec's single event queue prescribes; props callbacks are taken as
  stable, so the interval is re-created only when the deadline changes.

  \<^bold>\<open>Open ends.\<close> Everything under \<open>src/\<close> that holds state or computes a value
  is modelled; what remains unmapped are imports, the background music and
  \<open>loadSounds()\<close> (above), and \<open>ArrowInput\<close>'s key matching, whose source is not in
  the repository. The orchestrator and the difficulty and scoring curves are modelled
  from the spec only; their code, once available, would replace \<open>Game\<close>'s
  definitions, and the game-level claims (C19, C20--C22, C31) would then be
  re-proved against it.
\<close>

lemma fold_game_on_output_game_over:
  "g_phase g = Playing \<Longrightarrow> g_phase (fold (\<lambda>out g. game_on_output sp dp g out) outs g) = GameOver \<Longrightarrow>
   g_store (fold (\<lambda>out g. game_on_output sp dp g out) outs g) =
     game_over_effect (g_store g) (int (g_score (fold (\<lambda>out g. game_on_output sp dp g out) outs g)))"
proof (induction outs arbitrary: g)
  case (Cons out outs)
  let ?g1 = "game_on_output sp dp g out"
  show ?case
  proof (cases "g_phase ?g1 = Playing")
    case True
    then have "g_store ?g1 = g_store g" using Cons.prems(1) by (cases out) (simp_all add: Let_def)
    with Cons.IH [OF True] Cons.prems(2) show ?thesis by simp
  next
    case False
    with Cons.prems(1) have g1: "?g1 = g\<lparr>g_phase := GameOver, g_store := game_over_effect (g_store g) (int (g_score g))\<rparr>"
      by (cases out) (simp_all add: Let_def)
    then have "fold (\<lambda>out g. game_on_output sp dp g out) outs ?g1 = ?g1"
      by (intro fold_game_on_output_idle) simp
    with g1 show ?thesis by simp
  qed
qed simp

text \<open>C21: Throughout a game whose difficulty policy never yields an empty round, the mounted round's deadline is at most one round length after the game's clock: the round engine's clamp invariant holds in the composed system.\<close>

theorem game_deadline_within_round_length:
  "game_reach sp dp g \<Longrightarrow> nonempty_rounds dp \<Longrightarrow> g_phase g = Playing \<Longrightarrow>
   end_time (g_rs g) \<le> g_clock g + round_length_for dp (g_round g)"
proof -
  assume r: "game_reach sp dp g" and ne: "nonempty_rounds dp" and p: "g_phase g = Playing"
  from game_reach_inv [OF r ne] p have "round_reach (game_props dp g) (g_clock g) (g_rs g)"
    by (simp add: game_inv_def)
  then have "round_inv (game_props dp g) (g_clock g) (g_rs g)" by (rule round_reach_inv)
  then show ?thesis by (simp add: round_inv_def game_props_def)
qed

theorem game_deadline_within_round_length_witness:
  "game_reach demo_scoring demo_difficulty (demo_playing 0) \<and> nonempty_rounds demo_difficulty \<and>
   g_phase (demo_playing 0) = Playing \<and>
   end_time (g_rs (demo_playing 0)) \<le> g_clock (demo_playing 0) + round_length_for demo_difficulty (g_round (demo_playing 0))"
proof -
  have p: "g_phase (demo_playing 0) = Playing" by (simp add: demo_playing_def)
  show ?thesis
    using demo_playing_reach demo_nonempty_rounds p
      game_deadline_within_round_length [OF demo_playing_reach demo_nonempty_rounds p]
    by blast
qed

text \<open>C22: When a step ends the game, the stored high score is at least the final score.\<close>

theorem game_over_records_final_score:
  assumes "g_phase g = Playing" and "game_step sp dp g ev = Inr g'" and "g_phase g' = GameOver"
  shows "int (g_score g') \<le> read_store (g_store g') game_over_key 0"
proof (cases ev)
  case (Input e)
  with assms(1,2) obtain rs' outs where
    g': "g' = fold (\<lambda>out g. game_on_output sp dp g out) outs (g\<lparr>g_rs := rs', g_clock := clock_after (g_clock g) e\<rparr>)"
    by (auto simp: game_input_def split: sum.splits prod.splits)
  with assms(1,3) have "g_store g' = game_over_effect (g_store g) (int (g_score g'))"
    using fold_game_on_output_game_over [of "g\<lparr>g_rs := rs', g_clock := clock_after (g_clock g) e\<rparr>" sp dp outs]
    by simp
  then show ?thesis by (simp add: game_over_effect_cases)
qed (use assms in \<open>auto split: if_splits\<close>)

theorem game_over_records_final_score_witness:
  "g_phase (demo_playing 50) = Playing \<and>
   game_step demo_scoring demo_difficulty (demo_playing 50) (Input (Tick 12000)) =
     Inr ((demo_playing 50)\<lparr>g_phase := GameOver, g_store := [game_over_key \<mapsto> 50], g_clock := 12000,
           g_rs := \<lparr>now = 12000, end_time = 10000, sequenceIdx = 0, interval_on = False\<rparr>\<rparr>) \<and>
   (50::int) \<le> read_store [game_over_key \<mapsto> 50] game_over_key 0"
proof -
  let ?g' = "(demo_playing 50)\<lparr>g_phase := GameOver, g_store := [game_over_key \<mapsto> 50], g_clock := 12000,
           g_rs := \<lparr>now = 12000, end_time = 10000, sequenceIdx = 0, interval_on = False\<rparr>\<rparr>"
  have p: "g_phase (demo_playing 50) = Playing" by (simp add: demo_playing_def)
  have st: "game_step demo_scoring demo_difficulty (demo_playing 50) (Input (Tick 12000)) = Inr ?g'"
    by (simp add: game_input_def demo_game_simps on_tick_def game_over_effect_cases read_store_def)
  have o: "g_phase ?g' = GameOver" by simp
  have "int (g_score ?g') = 50" by (simp add: demo_playing_def)
  then show ?thesis using p st game_over_records_final_score [OF p st o] by simp
qed

end
